theory Spec2Isabelle
  imports Complex_Main "HOL-Library.Sublist"
begin

section \<open>Sniffy Scan: the analyzer, the fuzzy filter and the Bubble Tea update loop\<close>

text \<open>
  A shallow embedding of the interactive program of \<^verbatim>\<open>main.go\<close> (the part that starts at
  the Tokyo Night theme: \<^verbatim>\<open>AWSSecretsManager\<close>, \<^verbatim>\<open>SecretAnalyzer\<close>, \<^verbatim>\<open>isFuzzyMatch\<close>,
  \<^verbatim>\<open>model\<close> and its \<^verbatim>\<open>Update\<close>).

  Go strings are byte sequences, so a string is a \<^typ>\<open>string\<close> of 8-bit characters;
  a rune is a natural number. The session states stay the strings the source uses.
  A run-time panic of the source is a value of type \<open>panic\<close>.

  External code is not modelled but taken as a parameter: the AWS client, the clock, the
  clipboard, the key handling of the Bubbles widgets (text input, table), the Unicode
  tables of \<^verbatim>\<open>strings.ToLower\<close>, the verbs of \<^verbatim>\<open>fmt.Errorf\<close> and the layout of
  \<^verbatim>\<open>time.Format\<close>. For the update loop they are the fields of the record \<open>env\<close>.
\<close>

subsection \<open>Strings: UTF-8 decoding and lower case\<close>

definition RuneError :: nat where
  "RuneError = 0xFFFD"

definition isASCII :: "char \<Rightarrow> bool" where
  "isASCII c = ((of_char c :: nat) < 0x80)"

definition cont :: "char \<Rightarrow> bool" where
  "cont c = (0x80 \<le> (of_char c :: nat) \<and> (of_char c :: nat) \<le> 0xBF)"

text \<open>
  \<^verbatim>\<open>utf8.DecodeRuneInString\<close>: the rune at the head of the string and its width in bytes;
  an invalid or truncated encoding is \<open>RuneError\<close> of width 1.
\<close>

fun DecodeRuneInString :: "string \<Rightarrow> nat \<times> nat" where
  "DecodeRuneInString [] = (RuneError, 0)"
| "DecodeRuneInString (c0 # rest) =
     (let b0 = (of_char c0 :: nat) in
      if b0 < 0x80 then (b0, 1)
      else if 0xC2 \<le> b0 \<and> b0 \<le> 0xDF then
        (case rest of
           c1 # _ \<Rightarrow>
             if cont c1 then ((b0 mod 32) * 64 + of_char c1 mod 64, 2) else (RuneError, 1)
         | _ \<Rightarrow> (RuneError, 1))
      else if 0xE0 \<le> b0 \<and> b0 \<le> 0xEF then
        (case rest of
           c1 # c2 # _ \<Rightarrow>
             let b1 = (of_char c1 :: nat);
                 lo = (if b0 = 0xE0 then 0xA0 else 0x80);
                 hi = (if b0 = 0xED then 0x9F else 0xBF)
             in if lo \<le> b1 \<and> b1 \<le> hi \<and> cont c2
                then ((b0 mod 16) * 4096 + (b1 mod 64) * 64 + of_char c2 mod 64, 3)
                else (RuneError, 1)
         | _ \<Rightarrow> (RuneError, 1))
      else if 0xF0 \<le> b0 \<and> b0 \<le> 0xF4 then
        (case rest of
           c1 # c2 # c3 # _ \<Rightarrow>
             let b1 = (of_char c1 :: nat);
                 lo = (if b0 = 0xF0 then 0x90 else 0x80);
                 hi = (if b0 = 0xF4 then 0x8F else 0xBF)
             in if lo \<le> b1 \<and> b1 \<le> hi \<and> cont c2 \<and> cont c3
                then ((b0 mod 8) * 262144 + (b1 mod 64) * 4096
                      + (of_char c2 mod 64) * 64 + of_char c3 mod 64, 4)
                else (RuneError, 1)
         | _ \<Rightarrow> (RuneError, 1))
      else (RuneError, 1))"

text \<open>The runes a \<^verbatim>\<open>for _, c := range s\<close> loop visits.\<close>

fun runes :: "string \<Rightarrow> nat list" where
  "runes [] = []"
| "runes (c # cs) =
     (case DecodeRuneInString (c # cs) of
        (r, n) \<Rightarrow> r # runes (drop (n - 1) cs))"

definition lowerASCII :: "char \<Rightarrow> char" where
  "lowerASCII c =
     (if (of_char CHR ''A'' :: nat) \<le> of_char c \<and> (of_char c :: nat) \<le> of_char CHR ''Z''
      then char_of ((of_char c :: nat) + 32) else c)"

text \<open>
  \<^verbatim>\<open>strings.ToLower\<close>: an ASCII-only string is lowered byte by byte; any other string goes
  through \<^verbatim>\<open>strings.Map(unicode.ToLower, s)\<close>, the parameter \<open>mapLower\<close>.
\<close>

definition ToLower :: "(string \<Rightarrow> string) \<Rightarrow> string \<Rightarrow> string" where
  "ToLower mapLower s = (if list_all isASCII s then map lowerASCII s else mapLower s)"

subsection \<open>The fuzzy match (\<^verbatim>\<open>isFuzzyMatch\<close>)\<close>

text \<open>
  The inner loop \<^verbatim>\<open>for ; i < len(target); i++\<close>: the bytes of the target from index
  \<open>i\<close> on are searched for the rune \<open>c\<close>; the bytes after the hit (\<^verbatim>\<open>i++; break\<close>) are
  what the next rune of the query searches. The second argument is \<^verbatim>\<open>target[i:]\<close>.
\<close>

fun scan_target :: "nat \<Rightarrow> string \<Rightarrow> string option" where
  "scan_target c [] = None"
| "scan_target c (b # bs) = (if (of_char b :: nat) = c then Some bs else scan_target c bs)"

fun match_loop :: "nat list \<Rightarrow> string \<Rightarrow> bool" where
  "match_loop [] target = True"
| "match_loop (c # cs) target =
     (case scan_target c target of
        None \<Rightarrow> False
      | Some rest \<Rightarrow> match_loop cs rest)"

definition isFuzzyMatch :: "(string \<Rightarrow> string) \<Rightarrow> string \<Rightarrow> string \<Rightarrow> bool" where
  "isFuzzyMatch mapLower query target =
     match_loop (runes (ToLower mapLower query)) (ToLower mapLower target)"

text \<open>
  The match predicate in the words of the specification: the characters of the lowercased
  query are an ordered, not necessarily contiguous, subsequence of the characters of the
  lowercased target.
\<close>

definition fuzzy_spec :: "(string \<Rightarrow> string) \<Rightarrow> string \<Rightarrow> string \<Rightarrow> bool" where
  "fuzzy_spec mapLower query target =
     subseq (runes (ToLower mapLower query)) (runes (ToLower mapLower target))"

subsection \<open>Time, and the listing of the secret store\<close>

text \<open>
  A \<^verbatim>\<open>time.Time\<close> is the number of nanoseconds since the epoch, a \<^verbatim>\<open>time.Duration\<close> a
  number of nanoseconds. \<open>Since now t\<close> is \<^verbatim>\<open>time.Since(t)\<close> when the clock reads \<open>now\<close>:
  the difference, saturated at the ends of the 64-bit range as \<^verbatim>\<open>Time.Sub\<close> does.
  \<open>go_quot\<close> and \<open>go_rem\<close> are the division and the remainder of Go integers, which
  truncate towards zero.
\<close>

datatype panic = NilPointerDereference | IndexOutOfRange

definition Hour :: int where
  "Hour = 3600000000000"

definition maxDuration :: int where
  "maxDuration = 9223372036854775807"

definition minDuration :: int where
  "minDuration = - 9223372036854775808"

definition Since :: "int \<Rightarrow> int \<Rightarrow> int" where
  "Since now t =
     (let d = now - t in
      if maxDuration < d then maxDuration else if d < minDuration then minDuration else d)"

definition go_quot :: "int \<Rightarrow> int \<Rightarrow> int" where
  "go_quot a b = sgn a * sgn b * (\<bar>a\<bar> div \<bar>b\<bar>)"

definition go_rem :: "int \<Rightarrow> int \<Rightarrow> int" where
  "go_rem a b = a - b * go_quot a b"

text \<open>
  A \<^verbatim>\<open>float64\<close> is the rational number it stands for. \<open>float64 x\<close> is the result of an
  operation whose exact value is \<open>x\<close>: the nearest number with a significand of 53 bits,
  the even one of two equally near. \<open>binade x\<close> is the exponent of the power of two at or
  below a positive \<open>x\<close>, searched within the exponents of normal numbers; durations of 64
  bits stay far inside that range.
\<close>

definition pow2 :: "int \<Rightarrow> rat" where
  "pow2 k = (if 0 \<le> k then 2 ^ nat k else 1 / 2 ^ nat (- k))"

fun binade_up :: "nat \<Rightarrow> rat \<Rightarrow> int \<Rightarrow> int" where
  "binade_up 0 x e = e"
| "binade_up (Suc fuel) x e = (if pow2 (e + 1) \<le> x then binade_up fuel x (e + 1) else e)"

fun binade_down :: "nat \<Rightarrow> rat \<Rightarrow> int \<Rightarrow> int" where
  "binade_down 0 x e = e"
| "binade_down (Suc fuel) x e = (if x < pow2 e then binade_down fuel x (e - 1) else e)"

definition binade :: "rat \<Rightarrow> int" where
  "binade x = (if 1 \<le> x then binade_up 1023 x 0 else binade_down 1022 x 0)"

definition round_even :: "rat \<Rightarrow> int" where
  "round_even x =
     (let f = \<lfloor>x\<rfloor>; r = x - of_int f in
      if r < 1 / 2 then f else if 1 / 2 < r then f + 1 else if even f then f else f + 1)"

definition float64 :: "rat \<Rightarrow> rat" where
  "float64 x =
     (if x = 0 then 0
      else let q = pow2 (binade \<bar>x\<bar> - 52) in sgn x * of_int (round_even (\<bar>x\<bar> / q)) * q)"

text \<open>
  \<^verbatim>\<open>Duration.Hours\<close>: the whole hours plus the rest of the hour as a fraction, each
  operation rounded. \<open>days d\<close> is \<^verbatim>\<open>int(d.Hours() / 24)\<close>: the rounded quotient with its
  fraction dropped.
\<close>

definition Hours :: "int \<Rightarrow> rat" where
  "Hours d =
     float64 (of_int (go_quot d Hour) + float64 (of_int (go_rem d Hour) / 3600000000000))"

definition trunc :: "rat \<Rightarrow> int" where
  "trunc x = (if 0 \<le> x then \<lfloor>x\<rfloor> else \<lceil>x\<rceil>)"

definition days :: "int \<Rightarrow> int" where
  "days d = trunc (float64 (Hours d / 24))"

definition recentThresholdDays :: int where
  "recentThresholdDays = 14"

text \<open>
  One entry of a page of \<^verbatim>\<open>ListSecrets\<close> of the AWS client (\<^verbatim>\<open>types.SecretListEntry\<close>):
  all three fields are pointers.
\<close>

record SecretListEntry =
  sle_Name :: "string option"
  sle_CreatedDate :: "int option"
  sle_LastAccessedDate :: "int option"

record SecretEntry =
  Name :: string
  CreatedDate :: "int option"
  LastAccessedDate :: "int option"

record VersionInfo =
  VersionId :: string
  CreatedDate :: string
  LastAccessed :: string
  Stages :: string
  Value :: string
  Revealed :: bool

record SecretResult =
  Name :: string
  LastAccessed :: string

text \<open>\<^verbatim>\<open>strings.HasSuffix\<close>.\<close>

definition HasSuffix :: "string \<Rightarrow> string \<Rightarrow> bool" where
  "HasSuffix s suff =
     (length suff \<le> length s \<and> drop (length s - length suff) s = suff)"

text \<open>
  \<^verbatim>\<open>AWSSecretsManager.ListSecrets\<close>. The paginator is the list of its pages, each one the
  error of \<^verbatim>\<open>NextPage\<close> or the entries of the page. \<open>page_entries\<close> is the inner loop:
  entries without a name, with a name ending in \<^verbatim>\<open>-configuration\<close> or without a creation
  date are skipped.
\<close>

fun page_entries :: "SecretListEntry list \<Rightarrow> SecretEntry list" where
  "page_entries [] = []"
| "page_entries (secret # rest) =
     (case sle_Name secret of
        None \<Rightarrow> page_entries rest
      | Some name \<Rightarrow>
          if \<not> HasSuffix name ''-configuration'' then
            (case sle_CreatedDate secret of
               None \<Rightarrow> page_entries rest
             | Some created \<Rightarrow>
                 \<lparr>SecretEntry.Name = name, SecretEntry.CreatedDate = Some created,
                  LastAccessedDate = sle_LastAccessedDate secret\<rparr> # page_entries rest)
          else page_entries rest)"

fun ListSecrets_pages ::
  "(string + SecretListEntry list) list \<Rightarrow> SecretEntry list \<Rightarrow> SecretEntry list \<times> string option"
where
  "ListSecrets_pages [] secrets = (secrets, None)"
| "ListSecrets_pages (Inl e # rest) secrets = ([], Some (''failed to list secrets: '' @ e))"
| "ListSecrets_pages (Inr page # rest) secrets =
     ListSecrets_pages rest (secrets @ page_entries page)"

definition ListSecrets ::
  "(string + SecretListEntry list) list \<Rightarrow> SecretEntry list \<times> string option" where
  "ListSecrets pages = ListSecrets_pages pages []"

text \<open>
  \<^verbatim>\<open>SecretAnalyzer.AnalyzeSecrets\<close>. \<open>Format\<close> is \<^verbatim>\<open>Time.Format("2006-01-02")\<close>. Every
  call of \<^verbatim>\<open>time.Since\<close> reads the clock anew: \<open>clock n\<close> is what the clock reads at the
  call number \<open>n\<close> of the scan, and the loop counts its calls (one for the creation date
  of each entry, one more when the entry has a last-accessed date). The result is the pair
  \<^verbatim>\<open>(results, err)\<close> the Go function returns.
\<close>

fun analyze_loop ::
  "(int \<Rightarrow> string) \<Rightarrow> (nat \<Rightarrow> int) \<Rightarrow> bool \<Rightarrow> SecretEntry list \<Rightarrow> nat
     \<Rightarrow> SecretResult list \<Rightarrow> panic + SecretResult list"
where
  "analyze_loop Format clock applyFilter [] n results = Inr results"
| "analyze_loop Format clock applyFilter (entry # rest) n results =
     (case SecretEntry.CreatedDate entry of
        None \<Rightarrow> Inl NilPointerDereference
      | Some created \<Rightarrow>
          let createdDays = days (Since (clock n) created);
              lastAccessedStr =
                (case LastAccessedDate entry of
                   Some t \<Rightarrow> Format t
                 | None \<Rightarrow> ''Never'');
              daysSinceAccess =
                (case LastAccessedDate entry of
                   Some t \<Rightarrow> days (Since (clock (Suc n)) t)
                 | None \<Rightarrow> createdDays);
              n' = (case LastAccessedDate entry of Some t \<Rightarrow> Suc (Suc n) | None \<Rightarrow> Suc n)
          in if applyFilter \<and> daysSinceAccess \<le> recentThresholdDays
             then analyze_loop Format clock applyFilter rest n' results
             else analyze_loop Format clock applyFilter rest n'
                    (results @ [\<lparr>Name = SecretEntry.Name entry,
                                  LastAccessed = lastAccessedStr\<rparr>]))"

definition AnalyzeSecrets ::
  "(int \<Rightarrow> string) \<Rightarrow> (nat \<Rightarrow> int) \<Rightarrow> (string + SecretListEntry list) list \<Rightarrow> bool
     \<Rightarrow> panic + (SecretResult list \<times> string option)"
where
  "AnalyzeSecrets Format clock pages applyFilter =
     (case ListSecrets pages of
        (secrets, Some e) \<Rightarrow> Inr ([], Some (''failed to fetch AWS secrets: '' @ e))
      | (secrets, None) \<Rightarrow>
          if length secrets = 0 then Inr ([], None)
          else (case analyze_loop Format clock applyFilter secrets 0 [] of
                  Inl p \<Rightarrow> Inl p
                | Inr results \<Rightarrow> Inr (results, None)))"

text \<open>
  Staleness in the words of the specification: the age of a record is the time elapsed
  since its last access, or since its creation when it was never accessed
  (\<open>staleness_age\<close>), and the record is stale when the age exceeds 14 days
  (\<open>stale_spec\<close>). \<open>annotate\<close> is the result built for a record.
\<close>

definition staleness_age :: "int \<Rightarrow> SecretEntry \<Rightarrow> int" where
  "staleness_age now e =
     (case LastAccessedDate e of
        Some t \<Rightarrow> Since now t
      | None \<Rightarrow> (case SecretEntry.CreatedDate e of Some c \<Rightarrow> Since now c | None \<Rightarrow> 0))"

definition stale_spec :: "int \<Rightarrow> SecretEntry \<Rightarrow> bool" where
  "stale_spec now e = (14 * (24 * Hour) < staleness_age now e)"

definition annotate :: "(int \<Rightarrow> string) \<Rightarrow> SecretEntry \<Rightarrow> SecretResult" where
  "annotate Format e =
     \<lparr>Name = SecretEntry.Name e,
      LastAccessed = (case LastAccessedDate e of Some t \<Rightarrow> Format t | None \<Rightarrow> ''Never'')\<rparr>"

definition has_created :: "SecretEntry \<Rightarrow> bool" where
  "has_created e = (SecretEntry.CreatedDate e \<noteq> None)"

text \<open>
  For the examples: a clock that starts at \<open>start\<close> and advances by a microsecond from
  one reading to the next, a listing of two pages, and a listing of one secret that was
  created and last accessed at time 0.
\<close>

definition ticking :: "int \<Rightarrow> nat \<Rightarrow> int" where
  "ticking start n = start + 1000 * int n"

definition demo_pages :: "(string + SecretListEntry list) list" where
  "demo_pages =
     [Inr [\<lparr>sle_Name = Some ''old'', sle_CreatedDate = Some 0, sle_LastAccessedDate = None\<rparr>,
           \<lparr>sle_Name = Some ''app-configuration'', sle_CreatedDate = Some 0,
            sle_LastAccessedDate = None\<rparr>],
      Inr [\<lparr>sle_Name = Some ''fresh'', sle_CreatedDate = Some 0,
            sle_LastAccessedDate = Some (20 * (24 * Hour))\<rparr>]]"

definition demo_secrets :: "SecretEntry list" where
  "demo_secrets =
     [\<lparr>SecretEntry.Name = ''old'', SecretEntry.CreatedDate = Some 0, LastAccessedDate = None\<rparr>,
      \<lparr>SecretEntry.Name = ''fresh'', SecretEntry.CreatedDate = Some 0,
       LastAccessedDate = Some (20 * (24 * Hour))\<rparr>]"

definition used_once :: SecretEntry where
  "used_once =
     \<lparr>SecretEntry.Name = ''a'', SecretEntry.CreatedDate = Some 0, LastAccessedDate = Some 0\<rparr>"

definition used_once_page :: "(string + SecretListEntry list) list" where
  "used_once_page =
     [Inr [\<lparr>sle_Name = Some ''a'', sle_CreatedDate = Some 0, sle_LastAccessedDate = Some 0\<rparr>]]"

subsection \<open>Key events and widgets of Bubble Tea\<close>

text \<open>
  A key event (\<^verbatim>\<open>tea.KeyMsg\<close>) is either a run of typed or pasted runes (\<open>KeyRunes\<close>) or
  a special key, which carries its name in the table of key names (\<^verbatim>\<open>enter\<close>, \<^verbatim>\<open>esc\<close>,
  \<^verbatim>\<open>ctrl+c\<close>, \<^verbatim>\<open>up\<close>, the space bar as a single blank, ...). \<open>Key_String\<close> is its method
  \<^verbatim>\<open>String()\<close>, the only thing \<^verbatim>\<open>Update\<close> reads of a key: the runes as they are, in
  brackets when they were pasted, after \<^verbatim>\<open>alt+\<close> when the modifier was held.
\<close>

datatype KeyType = KeyRunes | KeyNamed string

record Key =
  Type :: KeyType
  Runes :: string
  Alt :: bool
  Paste :: bool

definition Key_String :: "Key \<Rightarrow> string" where
  "Key_String k =
     (if Alt k then ''alt+'' else []) @
     (case Type k of
        KeyRunes \<Rightarrow> (if Paste k then ''['' @ Runes k @ '']'' else Runes k)
      | KeyNamed name \<Rightarrow> name)"

text \<open>
  The text input and the table of Bubbles, reduced to the state the program reads: the
  text and the cursor of the input, the rows and the cursor of the table. \<^verbatim>\<open>Reset\<close>
  empties the input and \<^verbatim>\<open>Focus\<close> focuses it. How a widget reacts to a key, and how
  the table stores rows and a cursor, is left to the environment.
\<close>

record textinput_Model =
  input_value :: string
  input_pos :: nat
  input_focus :: bool

definition textinput_Reset :: "textinput_Model \<Rightarrow> textinput_Model" where
  "textinput_Reset t = t\<lparr>input_value := [], input_pos := 0\<rparr>"

definition textinput_Focus :: "textinput_Model \<Rightarrow> textinput_Model" where
  "textinput_Focus t = t\<lparr>input_focus := True\<rparr>"

record table_Model =
  rows :: "string list list"
  cursor :: int

text \<open>
  The environment: \<^verbatim>\<open>strings.Map(unicode.ToLower, s)\<close>, the verbs of \<^verbatim>\<open>fmt.Errorf\<close>, the
  AWS call \<^verbatim>\<open>DeleteSecret\<close> (\<open>None\<close> when it succeeds, the error text otherwise),
  \<^verbatim>\<open>clipboard.WriteAll\<close> (true when it returns no error), and the methods of the widgets.
\<close>

record env =
  strings_Map_ToLower :: "string \<Rightarrow> string"
  fmt_Errorf :: "string \<Rightarrow> string"
  aws_DeleteSecret :: "string \<Rightarrow> string option"
  clipboard_WriteAll :: "string \<Rightarrow> bool"
  textinput_Update :: "Key \<Rightarrow> textinput_Model \<Rightarrow> textinput_Model"
  table_Update :: "Key \<Rightarrow> table_Model \<Rightarrow> table_Model"
  table_SetRows :: "string list list \<Rightarrow> table_Model \<Rightarrow> table_Model"
  table_SetCursor :: "int \<Rightarrow> table_Model \<Rightarrow> table_Model"

subsection \<open>The model and its messages\<close>

text \<open>
  The struct \<^verbatim>\<open>model\<close>, without the spinner and the progress bar, which no transition
  reads. \<open>analyzer\<close> says that the pointer is not nil, \<open>err\<close> is \<open>None\<close> for a nil error.
  Slices are lists: the only code that writes into a slice in place is the toggle of
  \<^verbatim>\<open>m.selected[cursor]\<close>, and whenever \<^verbatim>\<open>selected\<close> shares its array with
  \<^verbatim>\<open>originalSelected\<close> (after a cancelled filter) the next filter session starts by
  copying both snapshots afresh, before \<^verbatim>\<open>originalSelected\<close> is read again.
\<close>

record model =
  state :: string
  table :: table_Model
  versionTable :: table_Model
  filterInput :: textinput_Model
  scanning :: bool
  results :: "SecretResult list"
  baseResults :: "SecretResult list"
  originalResults :: "SecretResult list"
  selected :: "bool list"
  originalSelected :: "bool list"
  analyzer :: bool
  currentScanStep :: string
  err :: "string option"
  viewingSecret :: string
  versions :: "VersionInfo list"
  confirmDelete :: bool
  deleteError :: string
  copiedMessage :: string
  lastCursorPos :: int
  filterMode :: string
  filtered :: bool
  hasFilter :: bool

text \<open>
  The messages \<^verbatim>\<open>Update\<close> receives, and the commands it returns. A command that closes
  over the model carries what its closure reads.
\<close>

datatype msg =
    KeyMsg Key
  | startScanMsg
  | analysisCompleteMsg "SecretResult list" "string option"
  | versionsFetchedMsg "VersionInfo list" "string option"
  | valueRevealedMsg int string "string option"
  | deleteCompleteMsg "string option"
  | clearCopiedMsg
  | spinner_TickMsg
  | progress_FrameMsg
  | otherMsg

datatype cmd =
    cmd_nil
  | tea_Quit
  | tick_startScanMsg
  | tick_clearCopiedMsg
  | cmd_startRealScan bool
  | cmd_fetchVersions string
  | cmd_revealValue string "VersionInfo list" int
  | cmd_performDelete "bool list" "SecretResult list"
  | cmd_widget

text \<open>\<^verbatim>\<open>initialModel\<close>; its argument is the error of \<^verbatim>\<open>NewSecretAnalyzer\<close>.\<close>

definition initialModel :: "string option \<Rightarrow> model" where
  "initialModel analyzer_err =
     \<lparr>state = ''banner'',
      table = \<lparr>rows = [], cursor = 0\<rparr>,
      versionTable = \<lparr>rows = [], cursor = 0\<rparr>,
      filterInput = \<lparr>input_value = [], input_pos = 0, input_focus = False\<rparr>,
      scanning = False,
      results = [],
      baseResults = [],
      originalResults = [],
      selected = [],
      originalSelected = [],
      analyzer = (analyzer_err = None),
      currentScanStep = ''Ready to scan'',
      err = analyzer_err,
      viewingSecret = [],
      versions = [],
      confirmDelete = False,
      deleteError = [],
      copiedMessage = [],
      lastCursorPos = 0,
      filterMode = [],
      filtered = True,
      hasFilter = False\<rparr>"

text \<open>\<^verbatim>\<open>formatResults\<close> and \<^verbatim>\<open>formatVersions\<close>; the check mark is U+2714 in UTF-8.\<close>

definition check_mark :: string where
  "check_mark = [CHR 0xE2, CHR 0x9C, CHR 0x94]"

definition formatResults :: "model \<Rightarrow> string list list" where
  "formatResults m =
     map (\<lambda>(i, result).
            [if i < length (selected m) \<and> selected m ! i then check_mark else '' '',
             Name result, LastAccessed result])
         (enumerate 0 (results m))"

definition formatVersions :: "model \<Rightarrow> string list list" where
  "formatVersions m =
     map (\<lambda>v. [VersionId v, VersionInfo.CreatedDate v, VersionInfo.LastAccessed v,
                Stages v, Value v])
         (versions m)"

subsection \<open>Deleting\<close>

text \<open>
  \<^verbatim>\<open>AWSSecretsManager.DeleteSecret\<close> wraps the error of the AWS call. \<open>Errorf\<close> is
  \<^verbatim>\<open>fmt.Errorf\<close> applied to a text as its format: a text without a percent sign is
  reproduced as it is. \<open>delete_loop\<close> is the loop of \<^verbatim>\<open>performDelete\<close> over
  \<^verbatim>\<open>m.selected\<close>, with the index \<open>i\<close> and the string builder \<open>errStr\<close>; it indexes
  \<^verbatim>\<open>m.results\<close> and panics out of range. The model runs the command in one step on
  the slices its closure captured.
\<close>

definition DeleteSecret :: "env \<Rightarrow> string \<Rightarrow> string option" where
  "DeleteSecret E secretName =
     (case aws_DeleteSecret E secretName of
        Some e \<Rightarrow> Some (''failed to delete secret '' @ secretName @ '': '' @ e)
      | None \<Rightarrow> None)"

definition Errorf :: "env \<Rightarrow> string \<Rightarrow> string" where
  "Errorf E format = (if CHR ''%'' \<in> set format then fmt_Errorf E format else format)"

fun delete_loop ::
  "env \<Rightarrow> SecretResult list \<Rightarrow> bool list \<Rightarrow> nat \<Rightarrow> string \<Rightarrow> panic + string" where
  "delete_loop E res [] i errStr = Inr errStr"
| "delete_loop E res (sel # sels) i errStr =
     (if sel then
        (if i < length res then
           (case DeleteSecret E (Name (res ! i)) of
              Some e \<Rightarrow>
                delete_loop E res sels (Suc i)
                  (errStr @ Name (res ! i) @ '': '' @ e @ [CHR 0x0A])
            | None \<Rightarrow> delete_loop E res sels (Suc i) errStr)
         else Inl IndexOutOfRange)
      else delete_loop E res sels (Suc i) errStr)"

definition performDelete :: "env \<Rightarrow> bool list \<Rightarrow> SecretResult list \<Rightarrow> panic + msg" where
  "performDelete E sels res =
     (case delete_loop E res sels 0 [] of
        Inl p \<Rightarrow> Inl p
      | Inr errStr \<Rightarrow>
          if 0 < length errStr then Inr (deleteCompleteMsg (Some (Errorf E errStr)))
          else Inr (deleteCompleteMsg None))"

text \<open>The loop of the \<^verbatim>\<open>deleteCompleteMsg\<close> case, which keeps the unselected rows.\<close>

fun remove_selected ::
  "SecretResult list \<Rightarrow> bool list \<Rightarrow> nat \<Rightarrow> SecretResult list \<Rightarrow> bool list
     \<Rightarrow> panic + (SecretResult list \<times> bool list)" where
  "remove_selected res [] i newResults newSelected = Inr (newResults, newSelected)"
| "remove_selected res (sel # sels) i newResults newSelected =
     (if \<not> sel then
        (if i < length res
         then remove_selected res sels (Suc i) (newResults @ [res ! i]) (newSelected @ [False])
         else Inl IndexOutOfRange)
      else remove_selected res sels (Suc i) newResults newSelected)"

subsection \<open>\<^verbatim>\<open>Update\<close>\<close>

text \<open>
  The key handling of each state is a function of its own. In the state \<^verbatim>\<open>results\<close>
  the source is a sequence of \<^verbatim>\<open>if key == ...\<close> statements, some of which return and
  some of which fall through to \<^verbatim>\<open>m.table.Update(msg)\<close> (\<open>table_keys\<close>) at the end;
  as the key is one string, at most one of them applies, and \<open>key_results\<close> is the
  chain of them in the order of the source.
\<close>

definition key_confirm_delete :: "model \<Rightarrow> string \<Rightarrow> model \<times> cmd" where
  "key_confirm_delete m key =
     (if key = ''y'' then
        (m\<lparr>confirmDelete := False\<rparr>, cmd_performDelete (selected m) (results m))
      else if key = ''n'' \<or> key = ''esc'' then
        (m\<lparr>confirmDelete := False, state := ''results'', deleteError := []\<rparr>, cmd_nil)
      else (m, cmd_nil))"

definition preview :: "env \<Rightarrow> string \<Rightarrow> string \<Rightarrow> SecretResult list \<Rightarrow> SecretResult list" where
  "preview E st flt original =
     filter (\<lambda>res. let match = isFuzzyMatch (strings_Map_ToLower E) flt (Name res)
                   in (st = ''filter_include'' \<and> match) \<or> (st = ''filter_exclude'' \<and> \<not> match))
            original"

definition key_filter :: "env \<Rightarrow> model \<Rightarrow> Key \<Rightarrow> model \<times> cmd" where
  "key_filter E m k =
     (let key = Key_String k;
          m1 = m\<lparr>filterInput := textinput_Update E k (filterInput m)\<rparr>;
          flt = input_value (filterInput m1);
          m2 = m1\<lparr>results := preview E (state m1) flt (originalResults m1)\<rparr>;
          m3 = m2\<lparr>selected := replicate (length (results m2)) False\<rparr>;
          m4 = m3\<lparr>table := table_SetRows E (formatResults m3) (table m3)\<rparr>
      in if key = ''esc'' then
           (let m5 = m4\<lparr>results := originalResults m4\<rparr>;
                m6 = m5\<lparr>selected := originalSelected m5\<rparr>;
                m7 = m6\<lparr>table := table_SetRows E (formatResults m6) (table m6)\<rparr>
            in (m7\<lparr>state := ''results''\<rparr>, cmd_nil))
         else if key = ''enter'' then (m4\<lparr>hasFilter := True, state := ''results''\<rparr>, cmd_nil)
         else (m4, cmd_widget))"

definition key_view_secret :: "env \<Rightarrow> model \<Rightarrow> Key \<Rightarrow> model \<times> cmd" where
  "key_view_secret E m k =
     (let key = Key_String k; c = cursor (versionTable m) in
      if key = ''esc'' then
        (m\<lparr>state := ''results'', viewingSecret := [], versions := [],
           table := table_SetCursor E (lastCursorPos m) (table m)\<rparr>, cmd_nil)
      else if key = ''r'' \<and> 0 \<le> c \<and> c < int (length (versions m))
              \<and> \<not> Revealed (versions m ! nat c) then
        (m, cmd_revealValue (viewingSecret m) (versions m) c)
      else if key = ''y'' \<and> clipboard_WriteAll E (viewingSecret m) then
        (m\<lparr>copiedMessage := ''Copied secret name to clipboard''\<rparr>, tick_clearCopiedMsg)
      else (m\<lparr>versionTable := table_Update E k (versionTable m)\<rparr>, cmd_widget))"

definition toggle_selected :: "env \<Rightarrow> model \<Rightarrow> panic + model" where
  "toggle_selected E m =
     (let c = cursor (table m) in
      if 0 \<le> c \<and> c < int (length (selected m)) then
        (let i = nat c;
             m1 = m\<lparr>selected := (selected m)[i := \<not> selected m ! i]\<rparr>;
             rws = rows (table m1);
             check = (if selected m1 ! i then check_mark else '' '')
         in if i < length rws \<and> 0 < length (rws ! i) then
              Inr (m1\<lparr>table :=
                      table_SetCursor E c
                        (table_SetRows E (rws[i := (rws ! i)[0 := check]]) (table m1))\<rparr>)
            else Inl IndexOutOfRange)
      else Inr m)"

definition open_confirm :: "model \<Rightarrow> model" where
  "open_confirm m =
     (if list_ex (\<lambda>sel. sel) (selected m)
      then m\<lparr>confirmDelete := True, state := ''confirm_delete''\<rparr> else m)"

definition open_filter :: "string \<Rightarrow> model \<Rightarrow> model" where
  "open_filter st m =
     m\<lparr>state := st, originalResults := results m, originalSelected := selected m,
       filterInput := textinput_Focus (textinput_Reset (filterInput m))\<rparr>"

definition clear_filter :: "env \<Rightarrow> model \<Rightarrow> model" where
  "clear_filter E m =
     (if hasFilter m then
        (let m1 = m\<lparr>results := baseResults m\<rparr>;
             m2 = m1\<lparr>selected := replicate (length (results m1)) False\<rparr>;
             m3 = m2\<lparr>table := table_SetRows E (formatResults m2) (table m2)\<rparr>
         in m3\<lparr>hasFilter := False\<rparr>)
      else m)"

definition table_keys :: "env \<Rightarrow> Key \<Rightarrow> model \<Rightarrow> model \<times> cmd" where
  "table_keys E k m = (m\<lparr>table := table_Update E k (table m)\<rparr>, cmd_widget)"

definition key_results :: "env \<Rightarrow> model \<Rightarrow> Key \<Rightarrow> panic + (model \<times> cmd)" where
  "key_results E m k =
     (let key = Key_String k; c = cursor (table m) in
      if key = ''r'' then
        Inr (m\<lparr>filtered := True, state := ''banner'', scanning := False\<rparr>, tick_startScanMsg)
      else if key = ''R'' then
        Inr (m\<lparr>filtered := False, state := ''banner'', scanning := False\<rparr>, tick_startScanMsg)
      else if key = ''enter'' \<and> 0 \<le> c \<and> c < int (length (results m)) then
        Inr (m\<lparr>lastCursorPos := c, viewingSecret := Name (results m ! nat c),
               state := ''view_secret''\<rparr>,
             cmd_fetchVersions (Name (results m ! nat c)))
      else if key = '' '' then
        (case toggle_selected E m of
           Inl p \<Rightarrow> Inl p
         | Inr m1 \<Rightarrow> Inr (table_keys E k m1))
      else if key = ''D'' then Inr (table_keys E k (open_confirm m))
      else if key = ''y'' \<and> 0 \<le> c \<and> c < int (length (results m))
              \<and> clipboard_WriteAll E (Name (results m ! nat c)) then
        Inr (m\<lparr>copiedMessage := ''Copied secret name to clipboard''\<rparr>, tick_clearCopiedMsg)
      else if key = ''/'' then Inr (open_filter ''filter_include'' m, cmd_nil)
      else if key = ''?'' then Inr (open_filter ''filter_exclude'' m, cmd_nil)
      else if key = ''esc'' then Inr (table_keys E k (clear_filter E m))
      else Inr (table_keys E k m))"

definition analysisComplete :: "env \<Rightarrow> model \<Rightarrow> SecretResult list \<Rightarrow> string option \<Rightarrow> model" where
  "analysisComplete E m rs e =
     (let m1 = m\<lparr>scanning := False, state := ''results'', baseResults := rs, results := rs,
                 err := e\<rparr>
      in if err m1 = None then
           (let m2 = m1\<lparr>selected := replicate (length (results m1)) False\<rparr>;
                m3 = m2\<lparr>table := table_SetRows E (formatResults m2) (table m2)\<rparr>
            in m3\<lparr>hasFilter := False\<rparr>)
         else m1)"

definition deleteComplete :: "env \<Rightarrow> model \<Rightarrow> string option \<Rightarrow> panic + model" where
  "deleteComplete E m e =
     (case e of
        Some text \<Rightarrow> Inr (m\<lparr>deleteError := text, state := ''results''\<rparr>)
      | None \<Rightarrow>
          (case remove_selected (results m) (selected m) 0 [] [] of
             Inl p \<Rightarrow> Inl p
           | Inr (newResults, newSelected) \<Rightarrow>
               (let m1 = m\<lparr>results := newResults, baseResults := newResults,
                           selected := newSelected\<rparr>;
                    m2 = m1\<lparr>table := table_SetRows E (formatResults m1) (table m1)\<rparr>
                in Inr (m2\<lparr>state := ''results''\<rparr>))))"

definition valueRevealed :: "env \<Rightarrow> model \<Rightarrow> int \<Rightarrow> string \<Rightarrow> string option \<Rightarrow> panic + model" where
  "valueRevealed E m index v e =
     (case e of
        Some text \<Rightarrow> Inr (m\<lparr>err := Some text\<rparr>)
      | None \<Rightarrow>
          if 0 \<le> index \<and> index < int (length (versions m)) then
            (let m1 = m\<lparr>versions :=
                         (versions m)[nat index :=
                            (versions m ! nat index)\<lparr>Value := v, Revealed := True\<rparr>]\<rparr>
             in Inr (m1\<lparr>versionTable :=
                          table_SetRows E (formatVersions m1) (versionTable m1)\<rparr>))
          else Inl IndexOutOfRange)"

definition Update :: "env \<Rightarrow> model \<Rightarrow> msg \<Rightarrow> panic + (model \<times> cmd)" where
  "Update E m message =
     (case message of
        KeyMsg k \<Rightarrow>
          (let key = Key_String k in
           if key = ''q'' \<or> key = ''ctrl+c'' then Inr (m, tea_Quit)
           else if state m = ''confirm_delete'' then Inr (key_confirm_delete m key)
           else if state m = ''filter_include'' \<or> state m = ''filter_exclude''
             then Inr (key_filter E m k)
           else if state m = ''view_secret'' then Inr (key_view_secret E m k)
           else if state m = ''results'' then key_results E m k
           else Inr (m, cmd_nil))
      | startScanMsg \<Rightarrow>
          if \<not> analyzer m then Inr (m\<lparr>state := ''error''\<rparr>, cmd_nil)
          else Inr (m\<lparr>state := ''scanning'', scanning := True,
                      currentScanStep := ''Connecting to AWS and analyzing secrets...''\<rparr>,
                    cmd_startRealScan (filtered m))
      | analysisCompleteMsg rs e \<Rightarrow> Inr (analysisComplete E m rs e, cmd_nil)
      | versionsFetchedMsg vs e \<Rightarrow>
          (case e of
             Some text \<Rightarrow> Inr (m\<lparr>err := Some text, state := ''results''\<rparr>, cmd_nil)
           | None \<Rightarrow>
               (let m1 = m\<lparr>versions := vs\<rparr> in
                Inr (m1\<lparr>versionTable :=
                          table_SetRows E (formatVersions m1) (versionTable m1)\<rparr>, cmd_nil)))
      | valueRevealedMsg index v e \<Rightarrow>
          (case valueRevealed E m index v e of
             Inl p \<Rightarrow> Inl p
           | Inr m1 \<Rightarrow> Inr (m1, cmd_nil))
      | deleteCompleteMsg e \<Rightarrow>
          (case deleteComplete E m e of
             Inl p \<Rightarrow> Inl p
           | Inr m1 \<Rightarrow> Inr (m1, cmd_nil))
      | clearCopiedMsg \<Rightarrow> Inr (m\<lparr>copiedMessage := []\<rparr>, cmd_nil)
      | spinner_TickMsg \<Rightarrow> Inr (m, cmd_widget)
      | progress_FrameMsg \<Rightarrow> Inr (m, cmd_widget)
      | otherMsg \<Rightarrow> Inr (m, cmd_nil))"

text \<open>
  A session: the messages are handled one after the other; a panic ends it, and so does
  the command \<^verbatim>\<open>tea.Quit\<close>. \<open>issued\<close> lists the commands returned on the way.
\<close>

fun run :: "env \<Rightarrow> model \<Rightarrow> msg list \<Rightarrow> panic + model" where
  "run E m [] = Inr m"
| "run E m (x # xs) =
     (case Update E m x of
        Inl p \<Rightarrow> Inl p
      | Inr (m', c) \<Rightarrow> if c = tea_Quit then Inr m' else run E m' xs)"

fun issued :: "env \<Rightarrow> model \<Rightarrow> msg list \<Rightarrow> cmd list" where
  "issued E m [] = []"
| "issued E m (x # xs) =
     (case Update E m x of
        Inl p \<Rightarrow> []
      | Inr (m', c) \<Rightarrow> c # (if c = tea_Quit then [] else issued E m' xs))"

subsection \<open>Predicates of the properties\<close>

text \<open>
  \<open>confirm_ok\<close>: the confirmation dialog is open only with a selection. \<open>no_rows\<close>:
  nothing is listed and nothing can be selected. \<open>empty_scan\<close>: the message is not a scan
  result with records. \<open>in_filter\<close>: a filter session is open. \<open>typing\<close>: a key that
  neither quits nor ends a filter session. \<open>len_ok\<close>: the selection mask is as long as the
  list of results, and so is the snapshot of a filter session. \<open>scan_succeeded\<close>: the
  message is not the result of a failed scan.
\<close>

definition confirm_ok :: "model \<Rightarrow> bool" where
  "confirm_ok m = (state m = ''confirm_delete'' \<longrightarrow> True \<in> set (selected m))"

definition no_rows :: "model \<Rightarrow> bool" where
  "no_rows m =
     (results m = [] \<and> selected m = [] \<and> baseResults m = []
      \<and> state m \<noteq> ''confirm_delete''
      \<and> (state m = ''filter_include'' \<or> state m = ''filter_exclude''
           \<longrightarrow> originalResults m = [] \<and> originalSelected m = []))"

definition empty_scan :: "msg \<Rightarrow> bool" where
  "empty_scan x = (case x of analysisCompleteMsg rs e \<Rightarrow> rs = [] | _ \<Rightarrow> True)"

definition in_filter :: "model \<Rightarrow> bool" where
  "in_filter m = (state m = ''filter_include'' \<or> state m = ''filter_exclude'')"

definition typing :: "Key \<Rightarrow> bool" where
  "typing k =
     (Key_String k \<noteq> ''q'' \<and> Key_String k \<noteq> ''ctrl+c'' \<and> Key_String k \<noteq> ''esc''
      \<and> Key_String k \<noteq> ''enter'')"

definition len_ok :: "model \<Rightarrow> bool" where
  "len_ok m =
     (length (selected m) = length (results m)
      \<and> (in_filter m \<longrightarrow> length (originalSelected m) = length (originalResults m)))"

definition scan_succeeded :: "msg \<Rightarrow> bool" where
  "scan_succeeded x = (case x of analysisCompleteMsg rs e \<Rightarrow> e = None | _ \<Rightarrow> True)"

text \<open>
  The filter text: \<open>input_keeps_q_out\<close> says of the text input that a key event without
  the rune \<open>q\<close> never brings a \<open>q\<close> into a text that has none; \<open>single_q\<close> says of a
  message that, if it is a key event carrying the rune \<open>q\<close>, it is the plain key \<open>q\<close>.
  \<open>final f r\<close> reads \<open>f\<close> off the model a session ends in.
\<close>

definition no_q :: "model \<Rightarrow> bool" where
  "no_q m = (CHR ''q'' \<notin> set (input_value (filterInput m)))"

definition input_keeps_q_out :: "env \<Rightarrow> bool" where
  "input_keeps_q_out E =
     (\<forall>k t. CHR ''q'' \<notin> set (Runes k) \<longrightarrow> CHR ''q'' \<notin> set (input_value t)
        \<longrightarrow> CHR ''q'' \<notin> set (input_value (textinput_Update E k t)))"

definition single_q :: "msg \<Rightarrow> bool" where
  "single_q x =
     (case x of
        KeyMsg k \<Rightarrow> CHR ''q'' \<in> set (Runes k) \<longrightarrow> Key_String k = ''q''
      | _ \<Rightarrow> True)"

definition final :: "(model \<Rightarrow> 'a) \<Rightarrow> panic + model \<Rightarrow> 'a option" where
  "final f r = (case r of Inl p \<Rightarrow> None | Inr m \<Rightarrow> Some (f m))"

text \<open>
  Deleting: the records chosen by the mask and those it leaves, the line \<^verbatim>\<open>performDelete\<close>
  writes for a record whose deletion fails, the text of all these lines, and the records
  whose deletion fails.
\<close>

definition chosen :: "SecretResult list \<Rightarrow> bool list \<Rightarrow> SecretResult list" where
  "chosen res sels = map fst (filter snd (zip res sels))"

definition unselected :: "SecretResult list \<Rightarrow> bool list \<Rightarrow> SecretResult list" where
  "unselected res sels = map fst (filter (\<lambda>p. \<not> snd p) (zip res sels))"

definition error_line :: "env \<Rightarrow> SecretResult \<Rightarrow> string" where
  "error_line E r =
     (case DeleteSecret E (Name r) of
        Some e \<Rightarrow> Name r @ '': '' @ e @ [CHR 0x0A]
      | None \<Rightarrow> [])"

definition aggregate :: "env \<Rightarrow> SecretResult list \<Rightarrow> bool list \<Rightarrow> string" where
  "aggregate E res sels = concat (map (error_line E) (chosen res sels))"

definition failed :: "env \<Rightarrow> SecretResult list \<Rightarrow> bool list \<Rightarrow> SecretResult list" where
  "failed E res sels = filter (\<lambda>r. DeleteSecret E (Name r) \<noteq> None) (chosen res sels)"

text \<open>The records of the displayed list that are selected.\<close>

definition selected_records :: "model \<Rightarrow> SecretResult list" where
  "selected_records m = chosen (results m) (selected m)"

subsection \<open>An environment and sessions for the examples\<close>

text \<open>
  A small text input (runes are appended, backspace removes the last one), a table that
  moves its cursor by a row on the arrow keys and by a page of ten rows on the space bar
  (which the Bubbles table binds to page down), a secret store that refuses to delete
  \<open>beta\<close>.
\<close>

definition demo_textinput_Update :: "Key \<Rightarrow> textinput_Model \<Rightarrow> textinput_Model" where
  "demo_textinput_Update k t =
     (if \<not> input_focus t then t
      else if Key_String k = ''backspace'' then
        t\<lparr>input_value := butlast (input_value t), input_pos := input_pos t - 1\<rparr>
      else t\<lparr>input_value := input_value t @ Runes k,
             input_pos := input_pos t + length (Runes k)\<rparr>)"

definition demo_table_SetRows :: "string list list \<Rightarrow> table_Model \<Rightarrow> table_Model" where
  "demo_table_SetRows r t =
     t\<lparr>rows := r, cursor := (if int (length r) - 1 < cursor t then int (length r) - 1 else cursor t)\<rparr>"

definition demo_table_SetCursor :: "int \<Rightarrow> table_Model \<Rightarrow> table_Model" where
  "demo_table_SetCursor n t = t\<lparr>cursor := max 0 (min n (int (length (rows t)) - 1))\<rparr>"

definition demo_table_Update :: "Key \<Rightarrow> table_Model \<Rightarrow> table_Model" where
  "demo_table_Update k t =
     (if Key_String k = ''down'' \<or> Key_String k = ''j'' then demo_table_SetCursor (cursor t + 1) t
      else if Key_String k = ''up'' \<or> Key_String k = ''k'' then demo_table_SetCursor (cursor t - 1) t
      else if Key_String k = '' '' \<or> Key_String k = ''f'' \<or> Key_String k = ''pgdown''
        then demo_table_SetCursor (cursor t + 10) t
      else t)"

definition demo_env :: "(string \<Rightarrow> string option) \<Rightarrow> env" where
  "demo_env del =
     \<lparr>strings_Map_ToLower = (\<lambda>s. s),
      fmt_Errorf = (\<lambda>s. s),
      aws_DeleteSecret = del,
      clipboard_WriteAll = (\<lambda>s. True),
      textinput_Update = demo_textinput_Update,
      table_Update = demo_table_Update,
      table_SetRows = demo_table_SetRows,
      table_SetCursor = demo_table_SetCursor\<rparr>"

definition rune_key :: "string \<Rightarrow> Key" where
  "rune_key s = \<lparr>Type = KeyRunes, Runes = s, Alt = False, Paste = False\<rparr>"

definition named_key :: "string \<Rightarrow> Key" where
  "named_key s = \<lparr>Type = KeyNamed s, Runes = [], Alt = False, Paste = False\<rparr>"

definition space_key :: Key where
  "space_key = \<lparr>Type = KeyNamed '' '', Runes = '' '', Alt = False, Paste = False\<rparr>"

definition secret :: "string \<Rightarrow> SecretResult" where
  "secret n = \<lparr>Name = n, LastAccessed = ''Never''\<rparr>"

definition deny_beta :: "string \<Rightarrow> string option" where
  "deny_beta name = (if name = ''beta'' then Some ''AccessDenied'' else None)"

definition three :: "SecretResult list" where
  "three = [secret ''alpha'', secret ''beta'', secret ''gamma'']"

definition demo_model :: "string \<Rightarrow> SecretResult list \<Rightarrow> bool list \<Rightarrow> int \<Rightarrow> model" where
  "demo_model st rs sels cur =
     (initialModel None)
       \<lparr>state := st, results := rs, baseResults := rs, selected := sels,
        table := \<lparr>rows = map (\<lambda>r. ['' '', Name r, LastAccessed r]) rs, cursor = cur\<rparr>\<rparr>"

definition five :: "SecretResult list" where
  "five = [secret ''one'', secret ''two'', secret ''three'', secret ''four'', secret ''five'']"

definition denied_text :: string where
  "denied_text = ''beta: failed to delete secret beta: AccessDenied'' @ [CHR 0x0A]"

definition select_two :: "msg list" where
  "select_two =
     [startScanMsg, analysisCompleteMsg three None, KeyMsg space_key,
      KeyMsg (named_key ''up''), KeyMsg space_key, KeyMsg (rune_key ''D''),
      KeyMsg (rune_key ''y'')]"

definition filter_then_delete :: "msg list" where
  "filter_then_delete =
     [startScanMsg, analysisCompleteMsg three None, KeyMsg (rune_key ''/''),
      KeyMsg (rune_key ''l''), KeyMsg (named_key ''enter''), KeyMsg space_key,
      KeyMsg (rune_key ''D''), KeyMsg (rune_key ''y'')]"

definition failed_rescan :: "msg list" where
  "failed_rescan =
     [startScanMsg, analysisCompleteMsg three None, KeyMsg space_key, KeyMsg (rune_key ''r''),
      startScanMsg, analysisCompleteMsg [] (Some ''failed to fetch AWS secrets: timeout'')]"

section \<open>Properties\<close>

subsection \<open>The fuzzy match\<close>

lemma Decode_ascii: "isASCII c \<Longrightarrow> DecodeRuneInString (c # rest) = (of_char c, 1)"
  by (simp add: isASCII_def)

lemma runes_ascii: "list_all isASCII s \<Longrightarrow> runes s = map of_char s"
  by (induction s) (simp_all add: Decode_ascii del: DecodeRuneInString.simps)

lemma lowerASCII_ascii: "isASCII c \<Longrightarrow> isASCII (lowerASCII c)"
  unfolding isASCII_def lowerASCII_def by simp

lemma ToLower_ascii:
  "list_all isASCII s \<Longrightarrow> list_all isASCII (ToLower mapLower s)"
  by (simp add: ToLower_def list_all_iff lowerASCII_ascii)

lemma match_loop_Cons_Cons:
  "match_loop (c # cs) (b # bs) =
     (if (of_char b :: nat) = c then match_loop cs bs else match_loop (c # cs) bs)"
  by simp

lemma match_loop_subseq: "match_loop cs t = subseq cs (map of_char t)"
proof (induction t arbitrary: cs)
  case Nil
  then show ?case by (cases cs) simp_all
next
  case (Cons b bs)
  show ?case
  proof (cases cs)
    case Nil
    then show ?thesis by simp
  next
    case (Cons c cs')
    have "match_loop (c # cs') (b # bs) =
        (if (of_char b :: nat) = c then subseq cs' (map of_char bs)
         else subseq (c # cs') (map of_char bs))"
      unfolding match_loop_Cons_Cons using Cons.IH by simp
    then show ?thesis using Cons by auto
  qed
qed

lemma isFuzzyMatch_bytes:
  "isFuzzyMatch mapLower query target =
     subseq (runes (ToLower mapLower query)) (map of_char (ToLower mapLower target))"
  by (simp add: isFuzzyMatch_def match_loop_subseq)

lemma isFuzzyMatch_empty_query: "isFuzzyMatch mapLower [] target"
  by (simp add: isFuzzyMatch_def ToLower_def)

text \<open>
  Claim C4, as amended. For every query and every ASCII target (every name the secret
  store hands out is ASCII), \<open>isFuzzyMatch\<close> holds exactly when the characters of the
  lowercased query are an ordered subsequence of the characters of the lowercased target.
  \<open>isFuzzyMatch "scrt" "my-secret-name"\<close> is true, \<open>isFuzzyMatch "src" "my-secret-name"\<close>
  and \<open>isFuzzyMatch "xyz" "my-secret-name"\<close> are false, and the empty query matches every
  target.
\<close>

theorem isFuzzyMatch_subsequence:
  "(list_all isASCII target \<longrightarrow>
      isFuzzyMatch mapLower query target = fuzzy_spec mapLower query target)
   \<and> isFuzzyMatch mapLower ''scrt'' ''my-secret-name''
   \<and> \<not> isFuzzyMatch mapLower ''src'' ''my-secret-name''
   \<and> \<not> isFuzzyMatch mapLower ''xyz'' ''my-secret-name''
   \<and> isFuzzyMatch mapLower [] target"
proof -
  have a: "list_all isASCII target \<longrightarrow>
      isFuzzyMatch mapLower query target = fuzzy_spec mapLower query target"
    by (simp add: isFuzzyMatch_bytes fuzzy_spec_def runes_ascii ToLower_ascii)
  have b: "isFuzzyMatch mapLower ''scrt'' ''my-secret-name''"
    by (simp add: isFuzzyMatch_def ToLower_def isASCII_def lowerASCII_def)
  have c: "\<not> isFuzzyMatch mapLower ''src'' ''my-secret-name''"
    by (simp add: isFuzzyMatch_def ToLower_def isASCII_def lowerASCII_def)
  have d: "\<not> isFuzzyMatch mapLower ''xyz'' ''my-secret-name''"
    by (simp add: isFuzzyMatch_def ToLower_def isASCII_def lowerASCII_def)
  from a b c d isFuzzyMatch_empty_query show ?thesis by blast
qed

text \<open>The theorem at the query \<open>MST\<close> and the target \<open>My-Secret\<close>.\<close>

theorem isFuzzyMatch_subsequence_witness:
  "list_all isASCII ''My-Secret'' \<and> isFuzzyMatch id ''MST'' ''My-Secret''
   \<and> fuzzy_spec id ''MST'' ''My-Secret''"
  using isFuzzyMatch_subsequence [of "''My-Secret''" id "''MST''"]
  by (simp add: isASCII_def isFuzzyMatch_def ToLower_def lowerASCII_def)

text \<open>
  Claim C4 as stated fails twice. The query \<open>src\<close> does not match \<open>my-secret-name\<close>: after
  \<open>s\<close> and \<open>r\<close> no \<open>c\<close> is left. And the loop compares each rune of the query with single
  bytes of the target, so the query \<open>e-acute\<close> (bytes C3 A9, rune E9) does not match the
  target \<open>caf\<close> followed by \<open>e-acute\<close>, of which it is a subsequence. Both strings are their
  own lower case, so \<open>strings.Map(unicode.ToLower, s)\<close> is the identity on them.
\<close>

theorem isFuzzyMatch_counterexample:
  "\<not> isFuzzyMatch id ''src'' ''my-secret-name''
   \<and> fuzzy_spec id [CHR 0xC3, CHR 0xA9] (''caf'' @ [CHR 0xC3, CHR 0xA9])
   \<and> \<not> isFuzzyMatch id [CHR 0xC3, CHR 0xA9] (''caf'' @ [CHR 0xC3, CHR 0xA9])"
  by (simp add: isFuzzyMatch_def fuzzy_spec_def ToLower_def isASCII_def lowerASCII_def
      cont_def RuneError_def)

subsection \<open>The analyzer\<close>

lemma page_entries_created: "list_all has_created (page_entries page)"
  by (induction page) (auto simp: has_created_def split: option.splits)

lemma ListSecrets_pages_created:
  "list_all has_created acc \<Longrightarrow> ListSecrets_pages pages acc = (secrets, None)
     \<Longrightarrow> list_all has_created secrets"
proof (induction pages acc rule: ListSecrets_pages.induct)
  case (1 secrets)
  then show ?case by simp
next
  case (2 e rest secrets)
  then show ?case by simp
next
  case (3 page rest secrets)
  then show ?case by (simp add: page_entries_created)
qed

lemma ListSecrets_created:
  "ListSecrets pages = (secrets, None) \<Longrightarrow> list_all has_created secrets"
  unfolding ListSecrets_def using ListSecrets_pages_created [of "[]"] by simp

text \<open>
  Without the recency filter every listed record is returned, in the order of the listing,
  with its name and its last-accessed label, which is \<open>Never\<close> when the record was never
  accessed; no panic occurs, whatever the clock reads.
\<close>

lemma analyze_loop_unfiltered:
  "list_all has_created es \<Longrightarrow>
   analyze_loop Format clock False es n acc = Inr (acc @ map (annotate Format) es)"
proof (induction es arbitrary: n acc)
  case Nil
  then show ?case by simp
next
  case (Cons e es)
  then obtain c where c: "SecretEntry.CreatedDate e = Some c"
    by (auto simp: has_created_def)
  from Cons.prems have rest: "list_all has_created es" by simp
  show ?case
    using c Cons.IH [OF rest]
    by (simp add: annotate_def Let_def split: option.splits)
qed

lemma AnalyzeSecrets_unfiltered:
  assumes "ListSecrets pages = (secrets, None)"
  shows "AnalyzeSecrets Format clock pages False = Inr (map (annotate Format) secrets, None)"
proof (cases secrets)
  case Nil
  then show ?thesis using assms by (simp add: AnalyzeSecrets_def)
next
  case (Cons e es)
  have created: "list_all has_created secrets"
    using assms by (rule ListSecrets_created)
  have "analyze_loop Format clock False secrets 0 [] = Inr (map (annotate Format) secrets)"
    using analyze_loop_unfiltered [OF created, of Format clock 0 "[]"] by simp
  moreover have "length secrets \<noteq> 0" using Cons by simp
  ultimately show ?thesis using assms by (simp add: AnalyzeSecrets_def)
qed

text \<open>
  The rounding of \<^verbatim>\<open>float64\<close> shows in the day count, though not at the threshold: one
  nanosecond short of 1000 days counts as 1000 days, one nanosecond short of 15 days as 14.
\<close>

lemma days_examples:
  "days (1000 * (24 * Hour) - 1) = 1000 \<and> days (15 * (24 * Hour) - 1) = 14
   \<and> days (15 * (24 * Hour)) = 15 \<and> days (14 * (24 * Hour) + 12 * Hour) = 14"
  by code_simp

text \<open>
  A scan 21 days after the creation of three secrets: \<open>old\<close> was never accessed, \<open>fresh\<close>
  was accessed the day before, and the configuration secret is not listed at all.
\<close>

lemma demo_listing: "ListSecrets demo_pages = (demo_secrets, None)"
  by code_simp

lemma AnalyzeSecrets_example:
  "AnalyzeSecrets (\<lambda>t. ''2006-01-02'') (ticking (21 * (24 * Hour))) demo_pages True =
       Inr ([\<lparr>Name = ''old'', LastAccessed = ''Never''\<rparr>], None)
   \<and> AnalyzeSecrets (\<lambda>t. ''2006-01-02'') (ticking (21 * (24 * Hour))) demo_pages False =
       Inr ([\<lparr>Name = ''old'', LastAccessed = ''Never''\<rparr>,
             \<lparr>Name = ''fresh'', LastAccessed = ''2006-01-02''\<rparr>], None)"
  by code_simp

text \<open>
  Claim C3 fails on the source between 14 and 15 days. A secret was last accessed 14 days
  and 12 hours before the scan: when the loop reads the clock for it, its age exceeds the
  14-day threshold, so it is stale in the words of the claim (and has not been accessed
  in 14+ days, in the words of the README). Its day count is 14, the test
  \<^verbatim>\<open>daysSinceAccess <= recentThresholdDays\<close> holds, and the filtered scan returns nothing.
\<close>

theorem AnalyzeSecrets_drops_stale_record:
  "ListSecrets used_once_page = ([used_once], None)
   \<and> stale_spec (ticking (14 * (24 * Hour) + 12 * Hour) 1) used_once
   \<and> days (staleness_age (ticking (14 * (24 * Hour) + 12 * Hour) 1) used_once) = 14
   \<and> AnalyzeSecrets (\<lambda>t. ''2006-01-02'') (ticking (14 * (24 * Hour) + 12 * Hour))
        used_once_page True = Inr ([], None)
   \<and> AnalyzeSecrets (\<lambda>t. ''2006-01-02'') (ticking (14 * (24 * Hour) + 12 * Hour))
        used_once_page False = Inr ([annotate (\<lambda>t. ''2006-01-02'') used_once], None)"
  by code_simp

subsection \<open>Reading the end of a session\<close>

lemma final_Inr: "final f r = Some v \<Longrightarrow> \<exists>m. r = Inr m \<and> f m = v"
  by (cases r) (auto simp: final_def)

subsection \<open>The confirmation dialog needs a selection\<close>

text \<open>Every transition keeps \<open>confirm_ok\<close>, whatever the message.\<close>

lemma key_confirm_delete_ok:
  "confirm_ok m \<Longrightarrow> confirm_ok (fst (key_confirm_delete m key))"
  by (simp add: key_confirm_delete_def confirm_ok_def)

lemma key_filter_ok:
  "state m = ''filter_include'' \<or> state m = ''filter_exclude''
     \<Longrightarrow> confirm_ok (fst (key_filter E m k))"
  by (auto simp: key_filter_def confirm_ok_def Let_def)

lemma key_view_secret_ok:
  "state m = ''view_secret'' \<Longrightarrow> confirm_ok (fst (key_view_secret E m k))"
  by (simp add: key_view_secret_def confirm_ok_def Let_def)

lemma toggle_selected_state:
  "toggle_selected E m = Inr m' \<Longrightarrow> state m' = state m"
  by (auto simp: toggle_selected_def Let_def split: if_splits)

lemma open_confirm_ok: "state m = ''results'' \<Longrightarrow> confirm_ok (open_confirm m)"
  by (auto simp: open_confirm_def confirm_ok_def list_ex_iff)

lemma clear_filter_state: "state (clear_filter E m) = state m"
  by (simp add: clear_filter_def Let_def)

lemma not_confirm_ok: "state m \<noteq> ''confirm_delete'' \<Longrightarrow> confirm_ok m"
  by (simp add: confirm_ok_def)

lemma table_keys_confirm:
  "table_keys E k m1 = (m', c) \<Longrightarrow> confirm_ok m1 \<Longrightarrow> confirm_ok m'"
  by (auto simp: table_keys_def confirm_ok_def)

lemma key_results_ok:
  assumes "state m = ''results''" and "key_results E m k = Inr (m', c)"
  shows "confirm_ok m'"
proof -
  have m: "confirm_ok m" using assms(1) by (simp add: not_confirm_ok)
  have cf: "confirm_ok (clear_filter E m)"
    using assms(1) by (simp add: not_confirm_ok clear_filter_state)
  have tg: "confirm_ok m1" if "toggle_selected E m = Inr m1" for m1
    using that assms(1) toggle_selected_state [of E m m1] by (simp add: not_confirm_ok)
  show ?thesis
    using assms m cf open_confirm_ok [OF assms(1)]
    by (auto simp: key_results_def Let_def open_filter_def not_confirm_ok
        split: if_splits sum.splits dest: table_keys_confirm tg)
qed

lemma analysisComplete_state: "state (analysisComplete E m rs e) = ''results''"
  by (simp add: analysisComplete_def Let_def)

lemma deleteComplete_state: "deleteComplete E m e = Inr m' \<Longrightarrow> state m' = ''results''"
  by (auto simp: deleteComplete_def Let_def split: option.splits sum.splits)

lemma valueRevealed_frame:
  "valueRevealed E m i v e = Inr m' \<Longrightarrow> state m' = state m \<and> selected m' = selected m"
  by (auto simp: valueRevealed_def Let_def split: option.splits if_splits)

lemma Update_confirm_ok:
  assumes "Update E m x = Inr (m', c)" and "confirm_ok m"
  shows "confirm_ok m'"
proof (cases x)
  case (KeyMsg k)
  show ?thesis
  proof (cases "Key_String k = ''q'' \<or> Key_String k = ''ctrl+c''")
    case True
    then show ?thesis using assms KeyMsg by (auto simp: Update_def)
  next
    case False
    then show ?thesis
      using assms KeyMsg key_confirm_delete_ok [OF assms(2), of "Key_String k"]
        key_filter_ok [of m E k] key_view_secret_ok [of m E k] key_results_ok [of m E k m' c]
      by (auto simp: Update_def Let_def not_confirm_ok split: if_splits)
  qed
next
  case startScanMsg
  then show ?thesis using assms by (auto simp: Update_def confirm_ok_def split: if_splits)
next
  case (analysisCompleteMsg rs e)
  then show ?thesis using assms
    by (auto simp: Update_def analysisComplete_state not_confirm_ok)
next
  case (versionsFetchedMsg vs e)
  then show ?thesis using assms
    by (auto simp: Update_def confirm_ok_def Let_def split: option.splits)
next
  case (valueRevealedMsg i v e)
  then show ?thesis using assms
    by (auto simp: Update_def confirm_ok_def split: sum.splits dest!: valueRevealed_frame)
next
  case (deleteCompleteMsg e)
  then show ?thesis using assms
    by (auto simp: Update_def not_confirm_ok split: sum.splits dest!: deleteComplete_state)
next
  case clearCopiedMsg
  then show ?thesis using assms by (auto simp: Update_def confirm_ok_def)
next
  case spinner_TickMsg
  then show ?thesis using assms by (auto simp: Update_def)
next
  case progress_FrameMsg
  then show ?thesis using assms by (auto simp: Update_def)
next
  case otherMsg
  then show ?thesis using assms by (auto simp: Update_def)
qed

lemma run_confirm_ok: "run E m xs = Inr m' \<Longrightarrow> confirm_ok m \<Longrightarrow> confirm_ok m'"
proof (induction xs arbitrary: m)
  case Nil
  then show ?case by simp
next
  case (Cons x xs)
  then show ?case
    by (auto split: sum.splits if_splits dest: Update_confirm_ok)
qed

text \<open>
  Once nothing is listed, nothing can be selected until a scan brings records: every
  transition but such a scan result keeps \<open>no_rows\<close>.
\<close>

lemma key_filter_no_rows:
  "no_rows m \<Longrightarrow> state m = ''filter_include'' \<or> state m = ''filter_exclude''
     \<Longrightarrow> no_rows (fst (key_filter E m k))"
  by (auto simp: key_filter_def no_rows_def Let_def preview_def)

lemma key_view_secret_no_rows:
  "no_rows m \<Longrightarrow> state m = ''view_secret'' \<Longrightarrow> no_rows (fst (key_view_secret E m k))"
  by (auto simp: key_view_secret_def no_rows_def Let_def)

lemma toggle_selected_no_rows: "selected m = [] \<Longrightarrow> toggle_selected E m = Inr m"
  by (auto simp: toggle_selected_def Let_def)

lemma analysisComplete_no_rows: "no_rows m \<Longrightarrow> no_rows (analysisComplete E m [] e)"
  by (cases e) (simp_all add: analysisComplete_def no_rows_def Let_def)

lemma key_results_no_rows:
  assumes "key_results E m k = Inr (m', c)" and "no_rows m" and "state m = ''results''"
  shows "no_rows m'"
proof -
  have sel: "selected m = []" using assms(2) by (simp add: no_rows_def)
  show ?thesis
    using assms
    by (auto simp: key_results_def Let_def no_rows_def table_keys_def open_confirm_def
      open_filter_def clear_filter_def toggle_selected_no_rows [OF sel]
      split: if_splits)
qed

lemma deleteComplete_no_rows:
  "deleteComplete E m e = Inr m' \<Longrightarrow> no_rows m \<Longrightarrow> no_rows m'"
  by (auto simp: deleteComplete_def Let_def no_rows_def split: option.splits)

lemma valueRevealed_no_rows:
  "valueRevealed E m i v e = Inr m' \<Longrightarrow> no_rows m \<Longrightarrow> no_rows m'"
  by (auto simp: valueRevealed_def Let_def no_rows_def split: option.splits if_splits)

lemma Update_no_rows:
  assumes "Update E m x = Inr (m', c)" and "no_rows m" and "empty_scan x"
  shows "no_rows m'"
proof (cases x)
  case (KeyMsg k)
  show ?thesis
  proof (cases "Key_String k = ''q'' \<or> Key_String k = ''ctrl+c''")
    case True
    then show ?thesis using assms KeyMsg by (auto simp: Update_def)
  next
    case False
    have nc: "state m \<noteq> ''confirm_delete''" using assms(2) by (simp add: no_rows_def)
    show ?thesis
      using assms(1,2) KeyMsg False nc key_results_no_rows [of E m k m' c]
        key_filter_no_rows [of m E k] key_view_secret_no_rows [of m E k]
      by (auto simp: Update_def Let_def split: if_splits)
  qed
next
  case startScanMsg
  then show ?thesis using assms by (auto simp: Update_def no_rows_def split: if_splits)
next
  case (analysisCompleteMsg rs e)
  then show ?thesis using assms
    by (auto simp: Update_def empty_scan_def analysisComplete_no_rows)
next
  case (versionsFetchedMsg vs e)
  then show ?thesis using assms
    by (auto simp: Update_def no_rows_def Let_def split: option.splits)
next
  case (valueRevealedMsg i v e)
  then show ?thesis using assms
    by (auto simp: Update_def split: sum.splits dest: valueRevealed_no_rows)
next
  case (deleteCompleteMsg e)
  then show ?thesis using assms
    by (auto simp: Update_def split: sum.splits dest: deleteComplete_no_rows)
next
  case clearCopiedMsg
  then show ?thesis using assms by (auto simp: Update_def no_rows_def)
next
  case spinner_TickMsg
  then show ?thesis using assms by (auto simp: Update_def)
next
  case progress_FrameMsg
  then show ?thesis using assms by (auto simp: Update_def)
next
  case otherMsg
  then show ?thesis using assms by (auto simp: Update_def)
qed

lemma run_no_rows:
  "run E m xs = Inr m' \<Longrightarrow> no_rows m \<Longrightarrow> list_all empty_scan xs \<Longrightarrow> no_rows m'"
proof (induction xs arbitrary: m)
  case Nil
  then show ?case by simp
next
  case (Cons x xs)
  then show ?case
    by (auto split: sum.splits if_splits dest: Update_no_rows)
qed

lemma empty_scan_no_rows: "no_rows (analysisComplete E m [] None)"
  by (simp add: analysisComplete_def no_rows_def Let_def)

lemma initialModel_confirm_ok: "confirm_ok (initialModel e)"
  by (simp add: confirm_ok_def initialModel_def)

text \<open>
  In every state a session reaches from the initial model, whatever messages arrive in
  whatever order, the state \<open>confirm_delete\<close> implies that at least one entry of the
  selection mask is true. And when a scan succeeds with zero records, the mask is empty
  and stays empty, and the state \<open>confirm_delete\<close> is not entered, for as long as no later
  scan returns records.
\<close>

lemma confirm_delete_mask_entry:
  "(run E (initialModel e) msgs = Inr m \<and> state m = ''confirm_delete''
      \<longrightarrow> True \<in> set (selected m))
   \<and> (Update E m0 (analysisCompleteMsg [] None) = Inr (m1, c) \<and> list_all empty_scan msgs'
        \<and> run E m1 msgs' = Inr m2
      \<longrightarrow> selected m2 = [] \<and> results m2 = [] \<and> state m2 \<noteq> ''confirm_delete'')"
proof -
  have a: "run E (initialModel e) msgs = Inr m \<and> state m = ''confirm_delete''
      \<longrightarrow> True \<in> set (selected m)"
    using run_confirm_ok [of E "initialModel e" msgs m] initialModel_confirm_ok [of e]
    by (auto simp: confirm_ok_def)
  have b: "Update E m0 (analysisCompleteMsg [] None) = Inr (m1, c) \<and> list_all empty_scan msgs'
        \<and> run E m1 msgs' = Inr m2
      \<longrightarrow> selected m2 = [] \<and> results m2 = [] \<and> state m2 \<noteq> ''confirm_delete''"
  proof (intro impI, elim conjE)
    assume u: "Update E m0 (analysisCompleteMsg [] None) = Inr (m1, c)"
      and l: "list_all empty_scan msgs'" and r: "run E m1 msgs' = Inr m2"
    from u have "m1 = analysisComplete E m0 [] None" by (simp add: Update_def)
    then have "no_rows m1" by (simp add: empty_scan_no_rows)
    from run_no_rows [OF r this l] show
      "selected m2 = [] \<and> results m2 = [] \<and> state m2 \<noteq> ''confirm_delete''"
      by (simp add: no_rows_def)
  qed
  from a b show ?thesis by blast
qed

subsection \<open>The quit keys and the filter text\<close>

lemma Update_quit:
  "Key_String k = ''q'' \<or> Key_String k = ''ctrl+c'' \<Longrightarrow> Update E m (KeyMsg k) = Inr (m, tea_Quit)"
  by (auto simp: Update_def)

lemma key_confirm_delete_input:
  "key_confirm_delete m key = (m', c) \<Longrightarrow> filterInput m' = filterInput m"
  by (auto simp: key_confirm_delete_def split: if_splits)

lemma key_view_secret_input:
  "key_view_secret E m k = (m', c) \<Longrightarrow> filterInput m' = filterInput m"
  by (auto simp: key_view_secret_def Let_def split: if_splits)

lemma key_filter_input:
  "filterInput (fst (key_filter E m k)) = textinput_Update E k (filterInput m)"
  by (simp add: key_filter_def Let_def)

lemma toggle_selected_input: "toggle_selected E m = Inr m' \<Longrightarrow> filterInput m' = filterInput m"
  by (auto simp: toggle_selected_def Let_def split: if_splits)

lemma key_results_no_q:
  assumes "key_results E m k = Inr (m', c)" and "no_q m"
  shows "no_q m'"
  using assms
  by (auto simp: key_results_def Let_def no_q_def table_keys_def open_confirm_def
      open_filter_def clear_filter_def textinput_Reset_def textinput_Focus_def
      split: if_splits sum.splits dest!: toggle_selected_input)

lemma deleteComplete_input: "deleteComplete E m e = Inr m' \<Longrightarrow> filterInput m' = filterInput m"
  by (auto simp: deleteComplete_def Let_def split: option.splits sum.splits)

lemma valueRevealed_input: "valueRevealed E m i v e = Inr m' \<Longrightarrow> filterInput m' = filterInput m"
  by (auto simp: valueRevealed_def Let_def split: option.splits if_splits)

lemma analysisComplete_input: "filterInput (analysisComplete E m rs e) = filterInput m"
  by (simp add: analysisComplete_def Let_def)

lemma Update_no_q:
  assumes "Update E m x = Inr (m', c)" and "no_q m" and "input_keeps_q_out E" and "single_q x"
  shows "no_q m'"
proof (cases x)
  case (KeyMsg k)
  show ?thesis
  proof (cases "Key_String k = ''q'' \<or> Key_String k = ''ctrl+c''")
    case True
    then show ?thesis using assms KeyMsg by (auto simp: Update_def)
  next
    case False
    then have nq: "CHR ''q'' \<notin> set (Runes k)"
      using assms(4) KeyMsg by (auto simp: single_q_def)
    have typed: "no_q (fst (key_filter E m k))"
      using assms(2,3) nq by (simp add: no_q_def key_filter_input input_keeps_q_out_def)
    show ?thesis
      using assms(1,2) KeyMsg False typed key_results_no_q [of E m k m' c]
      by (auto simp: Update_def Let_def no_q_def split: if_splits
          dest: key_confirm_delete_input key_view_secret_input)
  qed
next
  case startScanMsg
  then show ?thesis using assms by (auto simp: Update_def no_q_def split: if_splits)
next
  case (analysisCompleteMsg rs e)
  then show ?thesis using assms by (auto simp: Update_def no_q_def analysisComplete_input)
next
  case (versionsFetchedMsg vs e)
  then show ?thesis using assms
    by (auto simp: Update_def no_q_def Let_def split: option.splits)
next
  case (valueRevealedMsg i v e)
  then show ?thesis using assms
    by (auto simp: Update_def no_q_def split: sum.splits dest!: valueRevealed_input)
next
  case (deleteCompleteMsg e)
  then show ?thesis using assms
    by (auto simp: Update_def no_q_def split: sum.splits dest!: deleteComplete_input)
next
  case clearCopiedMsg
  then show ?thesis using assms by (auto simp: Update_def no_q_def)
next
  case spinner_TickMsg
  then show ?thesis using assms by (auto simp: Update_def)
next
  case progress_FrameMsg
  then show ?thesis using assms by (auto simp: Update_def)
next
  case otherMsg
  then show ?thesis using assms by (auto simp: Update_def)
qed

lemma run_no_q:
  "run E m xs = Inr m' \<Longrightarrow> no_q m \<Longrightarrow> input_keeps_q_out E \<Longrightarrow> list_all single_q xs
     \<Longrightarrow> no_q m'"
proof (induction xs arbitrary: m)
  case Nil
  then show ?case by simp
next
  case (Cons x xs)
  then show ?case
    by (auto split: sum.splits if_splits dest: Update_no_q)
qed

lemma initialModel_no_q: "no_q (initialModel e)"
  by (simp add: no_q_def initialModel_def)

text \<open>
  Claim C10, as amended. In every state a key event named \<open>q\<close> or \<open>ctrl+c\<close> returns the
  quit command and the unchanged model, before any handling of the state; such an event
  never reaches the filter input. Consequently the filter text of every reachable state
  is free of the character \<open>q\<close> as long as each key event that carries the rune \<open>q\<close> is
  the plain key \<open>q\<close> (and the text input adds no \<open>q\<close> of its own).
\<close>

theorem quit_keys_and_filter_text:
  "(Key_String k = ''q'' \<or> Key_String k = ''ctrl+c''
      \<longrightarrow> Update E m (KeyMsg k) = Inr (m, tea_Quit))
   \<and> (input_keeps_q_out E \<and> list_all single_q msgs \<and> run E (initialModel e) msgs = Inr m'
      \<longrightarrow> CHR ''q'' \<notin> set (input_value (filterInput m')))"
  using Update_quit [of k E m] run_no_q [of E "initialModel e" msgs m'] initialModel_no_q [of e]
  by (auto simp: no_q_def)

lemma demo_input_keeps_q_out: "input_keeps_q_out (demo_env del)"
  by (auto simp: input_keeps_q_out_def demo_env_def demo_textinput_Update_def
      dest: in_set_butlastD)

text \<open>The theorem at a session that types \<open>se\<close> into the include filter.\<close>

theorem quit_keys_and_filter_text_witness:
  "Key_String (rune_key ''q'') = ''q''
   \<and> Update (demo_env deny_beta) (open_filter ''filter_include'' (initialModel None))
       (KeyMsg (rune_key ''q''))
     = Inr (open_filter ''filter_include'' (initialModel None), tea_Quit)
   \<and> input_keeps_q_out (demo_env deny_beta)
   \<and> list_all single_q
       [startScanMsg, analysisCompleteMsg three None, KeyMsg (rune_key ''/''),
        KeyMsg (rune_key ''s''), KeyMsg (rune_key ''e'')]
   \<and> final (input_value \<circ> filterInput)
       (run (demo_env deny_beta) (initialModel None)
          [startScanMsg, analysisCompleteMsg three None, KeyMsg (rune_key ''/''),
           KeyMsg (rune_key ''s''), KeyMsg (rune_key ''e'')]) = Some ''se''
   \<and> CHR ''q'' \<notin> set ''se''"
proof -
  let ?E = "demo_env deny_beta"
  let ?msgs = "[startScanMsg, analysisCompleteMsg three None, KeyMsg (rune_key ''/''),
        KeyMsg (rune_key ''s''), KeyMsg (rune_key ''e'')]"
  have k: "Key_String (rune_key ''q'') = ''q''" by (simp add: Key_String_def rune_key_def)
  have i: "input_keeps_q_out ?E" by (rule demo_input_keeps_q_out)
  have l: "list_all single_q ?msgs"
    by (simp add: single_q_def Key_String_def rune_key_def)
  have e: "final (input_value \<circ> filterInput) (run ?E (initialModel None) ?msgs) = Some ''se''"
    by code_simp
  from final_Inr [OF e] obtain m' where
    m': "run ?E (initialModel None) ?msgs = Inr m'" "input_value (filterInput m') = ''se''"
    by auto
  from quit_keys_and_filter_text
    [of "rune_key ''q''" ?E "open_filter ''filter_include'' (initialModel None)" ?msgs None m']
    k i l m'
  have "Update ?E (open_filter ''filter_include'' (initialModel None)) (KeyMsg (rune_key ''q''))
      = Inr (open_filter ''filter_include'' (initialModel None), tea_Quit)"
    and "CHR ''q'' \<notin> set (input_value (filterInput m'))" by simp_all
  then show ?thesis using k i l e m' by simp
qed

text \<open>
  Claim C10 as stated fails: a key event is named by all its runes, so two runes that
  arrive together (\<open>sq\<close>), or a pasted \<open>q\<close> (named \<open>[q]\<close>), is not the quit key and goes
  to the text input, and the filter text contains a \<open>q\<close>.
\<close>

theorem filter_text_q_counterexample:
  "Key_String (rune_key ''sq'') = ''sq''
   \<and> final (input_value \<circ> filterInput)
       (run (demo_env deny_beta) (initialModel None)
          [startScanMsg, analysisCompleteMsg three None, KeyMsg (rune_key ''/''),
           KeyMsg (rune_key ''sq'')]) = Some ''sq''
   \<and> Key_String \<lparr>Type = KeyRunes, Runes = ''q'', Alt = False, Paste = True\<rparr> = ''[q]''
   \<and> final (input_value \<circ> filterInput)
       (run (demo_env deny_beta) (initialModel None)
          [startScanMsg, analysisCompleteMsg three None, KeyMsg (rune_key ''/''),
           KeyMsg \<lparr>Type = KeyRunes, Runes = ''q'', Alt = False, Paste = True\<rparr>]) = Some ''q''"
  by code_simp

subsection \<open>Filter sessions\<close>

lemma key_filter_typing:
  assumes "typing k" and "key_filter E m k = (m', c)"
  shows "c = cmd_widget \<and> state m' = state m \<and> originalResults m' = originalResults m
    \<and> originalSelected m' = originalSelected m \<and> hasFilter m' = hasFilter m
    \<and> baseResults m' = baseResults m
    \<and> results m' = preview E (state m) (input_value (filterInput m')) (originalResults m)
    \<and> selected m' = replicate (length (results m')) False"
  using assms by (auto simp: key_filter_def typing_def Let_def)

lemma key_filter_esc:
  assumes "Key_String k = ''esc''" and "key_filter E m k = (m', c)"
  shows "c = cmd_nil \<and> state m' = ''results'' \<and> results m' = originalResults m
    \<and> selected m' = originalSelected m \<and> hasFilter m' = hasFilter m
    \<and> baseResults m' = baseResults m"
  using assms by (auto simp: key_filter_def Let_def)

lemma Update_in_filter:
  "in_filter m \<Longrightarrow> Key_String k \<noteq> ''q'' \<Longrightarrow> Key_String k \<noteq> ''ctrl+c''
     \<Longrightarrow> Update E m (KeyMsg k) = Inr (key_filter E m k)"
  by (auto simp: Update_def in_filter_def)

lemma filter_cancel_run:
  "in_filter m \<Longrightarrow> list_all typing ks \<Longrightarrow> Key_String kesc = ''esc'' \<Longrightarrow>
   \<exists>m'. run E m (map KeyMsg ks @ [KeyMsg kesc]) = Inr m' \<and> state m' = ''results''
     \<and> results m' = originalResults m \<and> selected m' = originalSelected m
     \<and> hasFilter m' = hasFilter m \<and> baseResults m' = baseResults m"
proof (induction ks arbitrary: m)
  case Nil
  obtain m' c where kf: "key_filter E m kesc = (m', c)" by (cases "key_filter E m kesc")
  have u: "Update E m (KeyMsg kesc) = Inr (m', c)"
    using Nil kf by (simp add: Update_in_filter)
  show ?case using u key_filter_esc [OF Nil(3) kf] by simp
next
  case (Cons k ks)
  then have t: "typing k" and rest: "list_all typing ks" by simp_all
  obtain m1 c where kf: "key_filter E m k = (m1, c)" by (cases "key_filter E m k")
  note f = key_filter_typing [OF t kf]
  have u: "Update E m (KeyMsg k) = Inr (m1, c)"
    using Cons.prems(1) t kf by (simp add: Update_in_filter typing_def)
  have "in_filter m1" using Cons.prems(1) f by (simp add: in_filter_def)
  from Cons.IH [OF this rest Cons.prems(3)] obtain m' where
    "run E m1 (map KeyMsg ks @ [KeyMsg kesc]) = Inr m'" "state m' = ''results''"
    "results m' = originalResults m1" "selected m' = originalSelected m1"
    "hasFilter m' = hasFilter m1" "baseResults m' = baseResults m1" by blast
  then show ?case using u f by simp
qed

lemma Update_open_filter:
  assumes "state m = ''results''" and "Key_String k = ''/'' \<or> Key_String k = ''?''"
  shows "\<exists>m1. Update E m (KeyMsg k) = Inr (m1, cmd_nil) \<and> in_filter m1
    \<and> originalResults m1 = results m \<and> originalSelected m1 = selected m
    \<and> hasFilter m1 = hasFilter m \<and> baseResults m1 = baseResults m"
  using assms
  by (auto simp: Update_def key_results_def open_filter_def in_filter_def Let_def)

lemma filter_session_cancel:
  assumes "state m = ''results''"
    and "Key_String k = ''/'' \<or> Key_String k = ''?''"
    and "list_all typing ks"
    and "Key_String kesc = ''esc''"
  shows "\<exists>m'. run E m (KeyMsg k # map KeyMsg ks @ [KeyMsg kesc]) = Inr m'
    \<and> state m' = ''results'' \<and> results m' = results m \<and> selected m' = selected m
    \<and> hasFilter m' = hasFilter m \<and> baseResults m' = baseResults m"
proof -
  from Update_open_filter [OF assms(1,2)] obtain m1 where
    u: "Update E m (KeyMsg k) = Inr (m1, cmd_nil)" and f: "in_filter m1"
    and o: "originalResults m1 = results m" "originalSelected m1 = selected m"
      "hasFilter m1 = hasFilter m" "baseResults m1 = baseResults m" by blast
  from filter_cancel_run [OF f assms(3,4)] obtain m' where
    "run E m1 (map KeyMsg ks @ [KeyMsg kesc]) = Inr m'" "state m' = ''results''"
    "results m' = originalResults m1" "selected m' = originalSelected m1"
    "hasFilter m' = hasFilter m1" "baseResults m' = baseResults m1" by blast
  then show ?thesis using u o by simp
qed

text \<open>
  Claim C5. From the state \<open>results\<close>, opening a filter with \<open>/\<close> or \<open>?\<close>, typing any keys
  that neither quit nor end the session, and pressing escape, ends in the state
  \<open>results\<close> with the list of results and the selection mask that were there when the
  filter was opened, selections toggled before included; the filter flag and the base list
  are unchanged too.
\<close>

theorem filter_cancel_restores:
  assumes "state m = ''results''"
    and "Key_String k = ''/'' \<or> Key_String k = ''?''"
    and "list_all typing ks"
    and "Key_String kesc = ''esc''"
  shows "\<exists>m'. run E m (KeyMsg k # map KeyMsg ks @ [KeyMsg kesc]) = Inr m'
    \<and> state m' = ''results'' \<and> results m' = results m \<and> selected m' = selected m
    \<and> hasFilter m' = hasFilter m \<and> baseResults m' = baseResults m"
  using assms by (rule filter_session_cancel)

text \<open>
  The theorem at a session with the second of three records selected: an exclude filter
  is opened, \<open>a\<close> and \<open>l\<close> are typed, one is deleted again, and escape is pressed.
\<close>

theorem filter_cancel_restores_witness:
  "state (demo_model ''results'' three [False, True, False] 1) = ''results''
   \<and> Key_String (rune_key ''?'') = ''?''
   \<and> list_all typing [rune_key ''a'', rune_key ''l'', named_key ''backspace'']
   \<and> Key_String (named_key ''esc'') = ''esc''
   \<and> final results
       (run (demo_env deny_beta) (demo_model ''results'' three [False, True, False] 1)
          (KeyMsg (rune_key ''?'')
           # map KeyMsg [rune_key ''a'', rune_key ''l'', named_key ''backspace'']
           @ [KeyMsg (named_key ''esc'')])) = Some three
   \<and> final selected
       (run (demo_env deny_beta) (demo_model ''results'' three [False, True, False] 1)
          (KeyMsg (rune_key ''?'')
           # map KeyMsg [rune_key ''a'', rune_key ''l'', named_key ''backspace'']
           @ [KeyMsg (named_key ''esc'')])) = Some [False, True, False]"
proof -
  let ?E = "demo_env deny_beta"
  let ?m = "demo_model ''results'' three [False, True, False] 1"
  let ?ks = "[rune_key ''a'', rune_key ''l'', named_key ''backspace'']"
  have r: "results ?m = three" and s: "selected ?m = [False, True, False]"
    by (simp_all add: demo_model_def)
  have h1: "state ?m = ''results''" by (simp add: demo_model_def)
  have h2: "Key_String (rune_key ''?'') = ''?''" by (simp add: Key_String_def rune_key_def)
  have h3: "list_all typing ?ks"
    by (simp add: typing_def Key_String_def rune_key_def named_key_def)
  have h4: "Key_String (named_key ''esc'') = ''esc''"
    by (simp add: Key_String_def named_key_def)
  from filter_cancel_restores [OF h1 disjI2 [OF h2] h3 h4, of ?E] obtain m' where
    "run ?E ?m (KeyMsg (rune_key ''?'') # map KeyMsg ?ks @ [KeyMsg (named_key ''esc'')])
       = Inr m'"
    "results m' = results ?m" "selected m' = selected ?m" by blast
  then show ?thesis using h1 h2 h3 h4 by (simp add: r s final_def)
qed

lemma filter_typing_run:
  assumes "in_filter m" and "list_all typing (ks @ [k])"
  shows "\<exists>m'. run E m (map KeyMsg (ks @ [k])) = Inr m' \<and> state m' = state m
    \<and> originalResults m' = originalResults m
    \<and> results m' = preview E (state m) (input_value (filterInput m')) (originalResults m)
    \<and> selected m' = replicate (length (results m')) False"
  using assms
proof (induction ks arbitrary: m)
  case Nil
  then have t: "typing k" by simp
  obtain m' c where kf: "key_filter E m k = (m', c)" by (cases "key_filter E m k")
  have u: "Update E m (KeyMsg k) = Inr (m', c)"
    using Nil(1) t kf by (simp add: Update_in_filter typing_def)
  show ?case using u key_filter_typing [OF t kf] by simp
next
  case (Cons k0 ks)
  then have t: "typing k0" and rest: "list_all typing (ks @ [k])" by simp_all
  obtain m1 c where kf: "key_filter E m k0 = (m1, c)" by (cases "key_filter E m k0")
  note f = key_filter_typing [OF t kf]
  have u: "Update E m (KeyMsg k0) = Inr (m1, c)"
    using Cons.prems(1) t kf by (simp add: Update_in_filter typing_def)
  have "in_filter m1" using Cons.prems(1) f by (simp add: in_filter_def)
  from Cons.IH [OF this rest] obtain m' where
    "run E m1 (map KeyMsg (ks @ [k])) = Inr m'" "state m' = state m1"
    "originalResults m' = originalResults m1"
    "results m' = preview E (state m1) (input_value (filterInput m')) (originalResults m1)"
    "selected m' = replicate (length (results m')) False" by blast
  then show ?case using u f by simp
qed

text \<open>
  Claim C7. In a filter session, after every keystroke the list of results is the filter
  of the query then in the input, applied in the mode of the session to the snapshot taken
  when the session began; the snapshot itself never changes, and the view before the
  keystroke plays no part. Hence the same query on the same snapshot in the same mode
  gives the same list, however often and after whatever other queries it is typed.
\<close>

theorem filter_preview_from_baseline:
  assumes "in_filter m" and "list_all typing (ks @ [k])"
  shows "\<exists>m'. run E m (map KeyMsg (ks @ [k])) = Inr m' \<and> state m' = state m
    \<and> originalResults m' = originalResults m
    \<and> results m' = preview E (state m) (input_value (filterInput m')) (originalResults m)
    \<and> selected m' = replicate (length (results m')) False
    \<and> (\<forall>m2 ks2 k2 m2'.
          in_filter m2 \<and> state m2 = state m \<and> originalResults m2 = originalResults m
          \<and> list_all typing (ks2 @ [k2]) \<and> run E m2 (map KeyMsg (ks2 @ [k2])) = Inr m2'
          \<and> input_value (filterInput m2') = input_value (filterInput m')
        \<longrightarrow> results m2' = results m')"
proof -
  from filter_typing_run [OF assms, of E] obtain m' where
    m': "run E m (map KeyMsg (ks @ [k])) = Inr m'" "state m' = state m"
      "originalResults m' = originalResults m"
      "results m' = preview E (state m) (input_value (filterInput m')) (originalResults m)"
      "selected m' = replicate (length (results m')) False" by blast
  have "results m2' = results m'"
    if a: "in_filter m2" "state m2 = state m" "originalResults m2 = originalResults m"
      "list_all typing (ks2 @ [k2])" "run E m2 (map KeyMsg (ks2 @ [k2])) = Inr m2'"
      "input_value (filterInput m2') = input_value (filterInput m')"
    for m2 ks2 k2 m2'
  proof -
    from filter_typing_run [OF a(1) a(4), of E] a(5) have
      "results m2' = preview E (state m2) (input_value (filterInput m2')) (originalResults m2)"
      by auto
    then show ?thesis using a(2,3,6) m'(4) by simp
  qed
  then show ?thesis using m' by blast
qed

text \<open>The theorem at an include filter over three records, after typing \<open>a\<close> and \<open>l\<close>.\<close>

theorem filter_preview_from_baseline_witness:
  "in_filter (open_filter ''filter_include'' (demo_model ''results'' three [False, True, False] 0))
   \<and> list_all typing ([rune_key ''a''] @ [rune_key ''l''])
   \<and> final (input_value \<circ> filterInput)
       (run (demo_env deny_beta)
          (open_filter ''filter_include'' (demo_model ''results'' three [False, True, False] 0))
          (map KeyMsg ([rune_key ''a''] @ [rune_key ''l'']))) = Some ''al''
   \<and> preview (demo_env deny_beta) ''filter_include'' ''al'' three = [secret ''alpha'']
   \<and> final results
       (run (demo_env deny_beta)
          (open_filter ''filter_include'' (demo_model ''results'' three [False, True, False] 0))
          (map KeyMsg ([rune_key ''a''] @ [rune_key ''l'']))) = Some [secret ''alpha'']"
proof -
  let ?E = "demo_env deny_beta"
  let ?m = "open_filter ''filter_include'' (demo_model ''results'' three [False, True, False] 0)"
  let ?run = "run ?E ?m (map KeyMsg ([rune_key ''a''] @ [rune_key ''l'']))"
  have st: "state ?m = ''filter_include''" and o: "originalResults ?m = three"
    by (simp_all add: demo_model_def open_filter_def)
  have h1: "in_filter ?m" by (simp add: in_filter_def st)
  have h2: "list_all typing ([rune_key ''a''] @ [rune_key ''l''])"
    by (simp add: typing_def Key_String_def rune_key_def)
  have v: "final (input_value \<circ> filterInput) ?run = Some ''al''" by code_simp
  have p: "preview ?E ''filter_include'' ''al'' three = [secret ''alpha'']" by code_simp
  from filter_preview_from_baseline [OF h1 h2, of ?E] obtain m' where
    m': "?run = Inr m'"
      "results m' = preview ?E (state ?m) (input_value (filterInput m')) (originalResults ?m)"
    by blast
  from v m'(1) have "input_value (filterInput m') = ''al''" by (simp add: final_def)
  then have "results m' = [secret ''alpha'']" using m'(2) p by (simp add: st o)
  then have "final results ?run = Some [secret ''alpha'']"
    using m'(1) by (simp add: final_def)
  then show ?thesis using h1 h2 v p by simp
qed

subsection \<open>Toggling a selection\<close>

lemma toggle_selected_at_cursor:
  assumes "0 \<le> cursor (table m)" and "cursor (table m) < int (length (selected m))"
    and "nat (cursor (table m)) < length (rows (table m))"
    and "rows (table m) ! nat (cursor (table m)) \<noteq> []"
  shows "\<exists>m'. toggle_selected E m = Inr m'
    \<and> selected m' = (selected m)[nat (cursor (table m)) :=
         \<not> selected m ! nat (cursor (table m))]
    \<and> results m' = results m \<and> hasFilter m' = hasFilter m
    \<and> baseResults m' = baseResults m \<and> state m' = state m"
  using assms by (simp add: toggle_selected_def Let_def)

lemma Update_toggle:
  assumes "state m = ''results''" and "Key_String k = '' ''"
    and "0 \<le> cursor (table m)" and "cursor (table m) < int (length (selected m))"
    and "nat (cursor (table m)) < length (rows (table m))"
    and "rows (table m) ! nat (cursor (table m)) \<noteq> []"
  shows "\<exists>m'. Update E m (KeyMsg k) = Inr (m', cmd_widget)
    \<and> selected m' = (selected m)[nat (cursor (table m)) :=
         \<not> selected m ! nat (cursor (table m))]
    \<and> results m' = results m \<and> hasFilter m' = hasFilter m
    \<and> baseResults m' = baseResults m \<and> state m' = ''results''"
proof -
  from toggle_selected_at_cursor [OF assms(3-6), of E] obtain m1 where
    t: "toggle_selected E m = Inr m1"
    and f: "selected m1 = (selected m)[nat (cursor (table m)) :=
         \<not> selected m ! nat (cursor (table m))]"
      "results m1 = results m" "hasFilter m1 = hasFilter m"
      "baseResults m1 = baseResults m" "state m1 = state m" by blast
  show ?thesis
    using assms(1,2) t f
    by (simp add: Update_def key_results_def Let_def table_keys_def)
qed

text \<open>
  Claim C8. In the state \<open>results\<close>, with the cursor on a row, the space bar flips the
  entry of the selection mask at the cursor and no other one, and leaves the list of
  results, the base list and the filter flag as they are. Opening a filter afterwards and
  leaving it with escape keeps the flipped entry, the list and the flag.
\<close>

theorem toggle_selection_frame:
  assumes "state m = ''results''" and "Key_String k = '' ''"
    and "0 \<le> cursor (table m)" and "cursor (table m) < int (length (selected m))"
    and "nat (cursor (table m)) < length (rows (table m))"
    and "rows (table m) ! nat (cursor (table m)) \<noteq> []"
    and "Key_String k1 = ''/'' \<or> Key_String k1 = ''?''"
    and "Key_String k2 = ''esc''"
  shows "(\<exists>m'. Update E m (KeyMsg k) = Inr (m', cmd_widget)
      \<and> selected m' = (selected m)[nat (cursor (table m)) :=
           \<not> selected m ! nat (cursor (table m))]
      \<and> results m' = results m \<and> hasFilter m' = hasFilter m
      \<and> baseResults m' = baseResults m \<and> state m' = ''results'')
    \<and> (\<exists>m''. run E m [KeyMsg k, KeyMsg k1, KeyMsg k2] = Inr m''
      \<and> selected m'' = (selected m)[nat (cursor (table m)) :=
           \<not> selected m ! nat (cursor (table m))]
      \<and> results m'' = results m \<and> hasFilter m'' = hasFilter m \<and> state m'' = ''results'')"
proof -
  from Update_toggle [OF assms(1-6), of E] obtain m1 where
    u: "Update E m (KeyMsg k) = Inr (m1, cmd_widget)"
    and f: "selected m1 = (selected m)[nat (cursor (table m)) :=
         \<not> selected m ! nat (cursor (table m))]"
      "results m1 = results m" "hasFilter m1 = hasFilter m"
      "baseResults m1 = baseResults m" "state m1 = ''results''" by blast
  from filter_session_cancel [OF f(5) assms(7) _ assms(8), of "[]" E] obtain m2 where
    r: "run E m1 [KeyMsg k1, KeyMsg k2] = Inr m2" "state m2 = ''results''"
      "results m2 = results m1" "selected m2 = selected m1" "hasFilter m2 = hasFilter m1"
    by auto
  have "run E m [KeyMsg k, KeyMsg k1, KeyMsg k2] = Inr m2"
    using u r(1) by simp
  then show ?thesis using u f r by auto
qed

text \<open>The theorem at the second of five rows.\<close>

theorem toggle_selection_frame_witness:
  "state (demo_model ''results'' five [False, False, False, False, False] 1) = ''results''
   \<and> Key_String space_key = '' ''
   \<and> cursor (table (demo_model ''results'' five [False, False, False, False, False] 1)) = 1
   \<and> Key_String (rune_key ''/'') = ''/''
   \<and> Key_String (named_key ''esc'') = ''esc''
   \<and> final selected
       (run (demo_env deny_beta)
          (demo_model ''results'' five [False, False, False, False, False] 1)
          [KeyMsg space_key]) = Some [False, True, False, False, False]
   \<and> final selected
       (run (demo_env deny_beta)
          (demo_model ''results'' five [False, False, False, False, False] 1)
          [KeyMsg space_key, KeyMsg (rune_key ''/''), KeyMsg (named_key ''esc'')])
       = Some [False, True, False, False, False]
   \<and> final results
       (run (demo_env deny_beta)
          (demo_model ''results'' five [False, False, False, False, False] 1)
          [KeyMsg space_key, KeyMsg (rune_key ''/''), KeyMsg (named_key ''esc'')])
       = Some five
   \<and> final hasFilter
       (run (demo_env deny_beta)
          (demo_model ''results'' five [False, False, False, False, False] 1)
          [KeyMsg space_key, KeyMsg (rune_key ''/''), KeyMsg (named_key ''esc'')])
       = Some False"
proof -
  let ?E = "demo_env deny_beta"
  let ?m = "demo_model ''results'' five [False, False, False, False, False] 1"
  have f: "state ?m = ''results''" "cursor (table ?m) = 1" "results ?m = five"
    "selected ?m = [False, False, False, False, False]" "hasFilter ?m = False"
    by (simp_all add: demo_model_def initialModel_def)
  have rw: "rows (table ?m) ! 1 \<noteq> []" "length (rows (table ?m)) = 5"
    by (simp_all add: demo_model_def five_def)
  have k: "Key_String space_key = '' ''" "Key_String (rune_key ''/'') = ''/''"
    "Key_String (named_key ''esc'') = ''esc''"
    by (simp_all add: Key_String_def space_key_def rune_key_def named_key_def)
  have h3: "0 \<le> cursor (table ?m)" and h4: "cursor (table ?m) < int (length (selected ?m))"
    and h5: "nat (cursor (table ?m)) < length (rows (table ?m))"
    and h6: "rows (table ?m) ! nat (cursor (table ?m)) \<noteq> []"
    using rw by (simp_all add: f)
  from toggle_selection_frame [OF f(1) k(1) h3 h4 h5 h6 disjI1 [OF k(2)] k(3), of ?E]
  obtain m' m'' where
    a: "Update ?E ?m (KeyMsg space_key) = Inr (m', cmd_widget)"
      "selected m' = (selected ?m)[nat (cursor (table ?m)) :=
           \<not> selected ?m ! nat (cursor (table ?m))]"
    and b: "run ?E ?m [KeyMsg space_key, KeyMsg (rune_key ''/''), KeyMsg (named_key ''esc'')]
        = Inr m''"
      "selected m'' = (selected ?m)[nat (cursor (table ?m)) :=
           \<not> selected ?m ! nat (cursor (table ?m))]"
      "results m'' = results ?m" "hasFilter m'' = hasFilter ?m"
    by blast
  have "run ?E ?m [KeyMsg space_key] = Inr m'" using a(1) by simp
  then show ?thesis using a(2) b k by (simp add: f final_def)
qed

subsection \<open>Deleting the selected records\<close>

lemma chosen_Cons:
  "chosen (r # res) (sel # sels) = (if sel then r # chosen res sels else chosen res sels)"
  by (simp add: chosen_def)

lemma unselected_Cons:
  "unselected (r # res) (sel # sels) =
     (if sel then unselected res sels else r # unselected res sels)"
  by (simp add: unselected_def)

lemma delete_loop_result:
  "i + length sels \<le> length res \<Longrightarrow>
   delete_loop E res sels i acc = Inr (acc @ aggregate E (drop i res) sels)"
proof (induction sels arbitrary: i acc)
  case Nil
  then show ?case by (simp add: aggregate_def chosen_def)
next
  case (Cons sel sels)
  then have i: "i < length res" and rest: "Suc i + length sels \<le> length res" by simp_all
  have d: "drop i res = res ! i # drop (Suc i) res"
    using i by (simp add: Cons_nth_drop_Suc)
  show ?case
    using i Cons.IH [OF rest]
    by (simp add: d aggregate_def chosen_Cons error_line_def split: option.splits)
qed

lemma remove_selected_result:
  "i + length sels \<le> length res \<Longrightarrow>
   remove_selected res sels i nr ns =
     Inr (nr @ unselected (drop i res) sels,
          ns @ replicate (length (unselected (drop i res) sels)) False)"
proof (induction sels arbitrary: i nr ns)
  case Nil
  then show ?case by (simp add: unselected_def)
next
  case (Cons sel sels)
  then have i: "i < length res" and rest: "Suc i + length sels \<le> length res" by simp_all
  have d: "drop i res = res ! i # drop (Suc i) res"
    using i by (simp add: Cons_nth_drop_Suc)
  show ?case
    using i Cons.IH [OF rest]
    by (simp add: d unselected_Cons replicate_app_Cons_same)
qed

lemma remove_selected_lengths:
  "remove_selected res sels i nr ns = Inr (nr', ns') \<Longrightarrow> length ns = length nr
     \<Longrightarrow> length ns' = length nr'"
  by (induction res sels i nr ns rule: remove_selected.induct) (auto split: if_splits)

lemma error_line_failed:
  "DeleteSecret E (Name r) \<noteq> None \<Longrightarrow> \<exists>e. error_line E r = Name r @ '': '' @ e @ [CHR 0x0A]"
  by (auto simp: error_line_def)

lemma aggregate_empty: "(aggregate E res sels = []) = (failed E res sels = [])"
proof -
  have "(error_line E r = []) = (DeleteSecret E (Name r) = None)" for r
    by (auto simp: error_line_def split: option.splits)
  then show ?thesis
    by (auto simp: aggregate_def failed_def filter_empty_conv)
qed

lemma aggregate_names:
  assumes "r \<in> set (failed E res sels)"
  shows "\<exists>a b. aggregate E res sels = a @ Name r @ '': '' @ b"
proof -
  from assms have r: "r \<in> set (chosen res sels)" and f: "DeleteSecret E (Name r) \<noteq> None"
    by (simp_all add: failed_def)
  from r obtain xs ys where c: "chosen res sels = xs @ r # ys"
    by (auto simp: in_set_conv_decomp)
  from error_line_failed [OF f] obtain e where
    e: "error_line E r = Name r @ '': '' @ e @ [CHR 0x0A]" by blast
  have "aggregate E res sels =
      concat (map (error_line E) xs) @ Name r @ '': '' @
        (e @ [CHR 0x0A] @ concat (map (error_line E) ys))"
    by (simp add: aggregate_def c e)
  then show ?thesis by blast
qed

lemma performDelete_result:
  assumes "length sels \<le> length res"
  shows "performDelete E sels res =
     Inr (deleteCompleteMsg
       (if failed E res sels = [] then None else Some (Errorf E (aggregate E res sels))))"
  using assms delete_loop_result [of 0 sels res E "[]"]
  by (simp add: performDelete_def aggregate_empty [symmetric])

lemma Update_confirm_yes:
  "state m = ''confirm_delete'' \<Longrightarrow> Key_String k = ''y'' \<Longrightarrow>
   Update E m (KeyMsg k) =
     Inr (m\<lparr>confirmDelete := False\<rparr>, cmd_performDelete (selected m) (results m))"
  by (simp add: Update_def key_confirm_delete_def)

lemma Update_delete_failed:
  "Update E m (deleteCompleteMsg (Some text)) =
     Inr (m\<lparr>deleteError := text, state := ''results''\<rparr>, cmd_nil)"
  by (simp add: Update_def deleteComplete_def)

lemma Update_delete_done:
  assumes "length (selected m) \<le> length (results m)"
  shows "\<exists>m'. Update E m (deleteCompleteMsg None) = Inr (m', cmd_nil)
    \<and> state m' = ''results'' \<and> results m' = unselected (results m) (selected m)
    \<and> selected m' = replicate (length (results m')) False"
  using assms remove_selected_result [of 0 "selected m" "results m" "[]" "[]"]
  by (simp add: Update_def deleteComplete_def Let_def)

text \<open>
  Claim C1, as amended. When delete is confirmed for the selected records and the delete
  call fails for some of them, the call is still made for every selected record, and the
  completion message carries one text with a line for each failed record that starts with
  its name. On that message the text is shown, and the displayed list of results and the
  selection mask stay as they were: the records that were deleted remain listed, and
  selected, beside those that failed. In the scenario of three results with two selected,
  one of which fails, all three records remain.
\<close>

theorem delete_failure_keeps_rows:
  assumes "state m = ''confirm_delete''"
    and "Key_String k = ''y''"
    and "length (selected m) \<le> length (results m)"
    and "failed E (results m) (selected m) \<noteq> []"
  shows "\<exists>text m'.
      Update E m (KeyMsg k) =
        Inr (m\<lparr>confirmDelete := False\<rparr>, cmd_performDelete (selected m) (results m))
    \<and> performDelete E (selected m) (results m) = Inr (deleteCompleteMsg (Some text))
    \<and> text = Errorf E (aggregate E (results m) (selected m))
    \<and> (\<forall>r \<in> set (failed E (results m) (selected m)).
          \<exists>a b. aggregate E (results m) (selected m) = a @ Name r @ '': '' @ b)
    \<and> Update E (m\<lparr>confirmDelete := False\<rparr>) (deleteCompleteMsg (Some text)) = Inr (m', cmd_nil)
    \<and> state m' = ''results'' \<and> deleteError m' = text
    \<and> results m' = results m \<and> selected m' = selected m \<and> baseResults m' = baseResults m"
  using assms Update_confirm_yes [of m k E] performDelete_result [OF assms(3), of E]
    aggregate_names [of _ E "results m" "selected m"]
  by (simp add: Update_delete_failed)

text \<open>The theorem at that scenario: \<open>alpha\<close> and \<open>beta\<close> are selected, \<open>beta\<close> fails.\<close>

theorem delete_failure_keeps_rows_witness:
  "state (demo_model ''confirm_delete'' three [True, True, False] 1) = ''confirm_delete''
   \<and> Key_String (rune_key ''y'') = ''y''
   \<and> length [True, True, False] \<le> length three
   \<and> failed (demo_env deny_beta) three [True, True, False] = [secret ''beta'']
   \<and> performDelete (demo_env deny_beta) [True, True, False] three =
       Inr (deleteCompleteMsg (Some denied_text))
   \<and> final results
       (run (demo_env deny_beta) (demo_model ''confirm_delete'' three [True, True, False] 1)
          [KeyMsg (rune_key ''y''), deleteCompleteMsg (Some denied_text)]) = Some three
   \<and> final selected
       (run (demo_env deny_beta) (demo_model ''confirm_delete'' three [True, True, False] 1)
          [KeyMsg (rune_key ''y''), deleteCompleteMsg (Some denied_text)])
       = Some [True, True, False]"
proof -
  let ?E = "demo_env deny_beta"
  let ?m = "demo_model ''confirm_delete'' three [True, True, False] 1"
  have r: "results ?m = three" and s: "selected ?m = [True, True, False]"
    by (simp_all add: demo_model_def)
  have h1: "state ?m = ''confirm_delete''" by (simp add: demo_model_def)
  have h2: "Key_String (rune_key ''y'') = ''y''" by (simp add: Key_String_def rune_key_def)
  have l: "length [True, True, False] \<le> length three" by (simp add: three_def)
  have h3: "length (selected ?m) \<le> length (results ?m)" using l by (simp add: r s)
  have f: "failed ?E three [True, True, False] = [secret ''beta'']" by code_simp
  have h4: "failed ?E (results ?m) (selected ?m) \<noteq> []" by (simp add: r s f)
  have t: "Errorf ?E (aggregate ?E three [True, True, False]) = denied_text" by code_simp
  from delete_failure_keeps_rows [OF h1 h2 h3 h4] obtain m' where
    u1: "Update ?E ?m (KeyMsg (rune_key ''y'')) =
      Inr (?m\<lparr>confirmDelete := False\<rparr>, cmd_performDelete (selected ?m) (results ?m))"
    and p: "performDelete ?E (selected ?m) (results ?m) =
      Inr (deleteCompleteMsg (Some (Errorf ?E (aggregate ?E (results ?m) (selected ?m)))))"
    and u2: "Update ?E (?m\<lparr>confirmDelete := False\<rparr>)
      (deleteCompleteMsg (Some (Errorf ?E (aggregate ?E (results ?m) (selected ?m)))))
       = Inr (m', cmd_nil)"
    and k: "results m' = results ?m" "selected m' = selected ?m"
    by blast
  have "run ?E ?m [KeyMsg (rune_key ''y''), deleteCompleteMsg (Some denied_text)] = Inr m'"
    using u1 u2 by (simp add: r s t)
  then show ?thesis
    using h1 h2 l f p k by (simp add: r s t final_def)
qed

text \<open>
  Claim C1 as stated fails at the scenario, reached from the initial model: the scan lists
  three records, the first two are selected (space, up, space), Shift+D and \<open>y\<close> issue
  the delete command, the deletion of \<open>beta\<close> fails. After the completion message three records are listed,
  not two, and \<open>alpha\<close>, which was deleted, is still there and still selected.
\<close>

theorem partial_delete_counterexample:
  "last (issued (demo_env deny_beta) (initialModel None) select_two) =
     cmd_performDelete [True, True, False] three
   \<and> performDelete (demo_env deny_beta) [True, True, False] three =
       Inr (deleteCompleteMsg (Some denied_text))
   \<and> final results
       (run (demo_env deny_beta) (initialModel None)
          (select_two @ [deleteCompleteMsg (Some denied_text)])) = Some three
   \<and> final selected
       (run (demo_env deny_beta) (initialModel None)
          (select_two @ [deleteCompleteMsg (Some denied_text)])) = Some [True, True, False]
   \<and> length three = 3"
  by code_simp

text \<open>
  Claim C2, as amended. A completion message of a delete sets the state \<open>results\<close>. When it
  carries an error, its text becomes the delete error and the current list, the base list
  and the mask are untouched, so that every selected record, deleted or not, stays listed
  and selected. When it carries none, every selected record is removed from the current
  list together with its mask entry: the unselected records remain, in their order, all
  unselected.
\<close>

theorem delete_complete_effect:
  "(\<exists>m'. Update E m (deleteCompleteMsg (Some text)) = Inr (m', cmd_nil)
      \<and> state m' = ''results'' \<and> deleteError m' = text \<and> results m' = results m
      \<and> selected m' = selected m \<and> baseResults m' = baseResults m)
   \<and> (length (selected m) \<le> length (results m) \<longrightarrow>
       (\<exists>m'. Update E m (deleteCompleteMsg None) = Inr (m', cmd_nil)
          \<and> state m' = ''results'' \<and> results m' = unselected (results m) (selected m)
          \<and> selected m' = replicate (length (results m')) False))"
  using Update_delete_done [of m E] by (simp add: Update_delete_failed)

text \<open>The theorem at three records of which the first two are selected.\<close>

theorem delete_complete_effect_witness:
  "length (selected (demo_model ''confirm_delete'' three [True, True, False] 1))
     \<le> length (results (demo_model ''confirm_delete'' three [True, True, False] 1))
   \<and> unselected three [True, True, False] = [secret ''gamma'']
   \<and> final results
       (run (demo_env deny_beta) (demo_model ''confirm_delete'' three [True, True, False] 1)
          [deleteCompleteMsg None]) = Some [secret ''gamma'']
   \<and> final selected
       (run (demo_env deny_beta) (demo_model ''confirm_delete'' three [True, True, False] 1)
          [deleteCompleteMsg None]) = Some [False]
   \<and> final results
       (run (demo_env deny_beta) (demo_model ''confirm_delete'' three [True, True, False] 1)
          [deleteCompleteMsg (Some denied_text)]) = Some three"
proof -
  let ?E = "demo_env deny_beta"
  let ?m = "demo_model ''confirm_delete'' three [True, True, False] 1"
  have r: "results ?m = three" and s: "selected ?m = [True, True, False]"
    by (simp_all add: demo_model_def)
  have l: "length [True, True, False] \<le> length three" by (simp add: three_def)
  have h: "length (selected ?m) \<le> length (results ?m)" using l by (simp add: r s)
  have u: "unselected three [True, True, False] = [secret ''gamma'']" by code_simp
  from delete_complete_effect [of ?E ?m denied_text] h obtain m1 m2 where
    a: "Update ?E ?m (deleteCompleteMsg (Some denied_text)) = Inr (m1, cmd_nil)"
      "results m1 = results ?m"
    and b: "Update ?E ?m (deleteCompleteMsg None) = Inr (m2, cmd_nil)"
      "results m2 = unselected (results ?m) (selected ?m)"
      "selected m2 = replicate (length (results m2)) False"
    by blast
  have "run ?E ?m [deleteCompleteMsg (Some denied_text)] = Inr m1"
    and "run ?E ?m [deleteCompleteMsg None] = Inr m2"
    using a b by simp_all
  then show ?thesis using h a b u by (simp add: r s final_def)
qed

text \<open>
  Claim C2 as stated fails. After a scan of three records the include filter \<open>l\<close> is
  committed, which shows \<open>alpha\<close> alone; \<open>alpha\<close> is selected and deleted without error. The
  base list, which held all three records, is empty afterwards, although \<open>beta\<close> and
  \<open>gamma\<close> were only hidden by the filter. And in the session of claim C1 the deleted
  record \<open>alpha\<close> is not removed.
\<close>

theorem delete_complete_counterexample:
  "last (issued (demo_env deny_beta) (initialModel None) filter_then_delete) =
     cmd_performDelete [True] [secret ''alpha'']
   \<and> performDelete (demo_env deny_beta) [True] [secret ''alpha''] = Inr (deleteCompleteMsg None)
   \<and> final baseResults (run (demo_env deny_beta) (initialModel None) filter_then_delete)
       = Some three
   \<and> final baseResults
       (run (demo_env deny_beta) (initialModel None)
          (filter_then_delete @ [deleteCompleteMsg None])) = Some []
   \<and> final results
       (run (demo_env deny_beta) (initialModel None)
          (select_two @ [deleteCompleteMsg (Some denied_text)])) = Some three"
  by code_simp

subsection \<open>The length of the selection mask\<close>

text \<open>
  Every transition keeps the mask as long as the list of results, except the result of a
  failed scan: in a session without a failed scan the two lengths agree throughout. A
  committed filter has an all-false mask of the length of its list.
\<close>

lemma key_filter_len_ok:
  "len_ok m \<Longrightarrow> in_filter m \<Longrightarrow> key_filter E m k = (m', c) \<Longrightarrow> len_ok m'"
  by (auto simp: key_filter_def len_ok_def in_filter_def Let_def split: if_splits)

lemma key_confirm_delete_len_ok:
  "len_ok m \<Longrightarrow> state m = ''confirm_delete'' \<Longrightarrow> key_confirm_delete m key = (m', c)
     \<Longrightarrow> len_ok m'"
  by (auto simp: key_confirm_delete_def len_ok_def in_filter_def split: if_splits)

lemma key_view_secret_len_ok:
  "len_ok m \<Longrightarrow> state m = ''view_secret'' \<Longrightarrow> key_view_secret E m k = (m', c) \<Longrightarrow> len_ok m'"
  by (auto simp: key_view_secret_def len_ok_def in_filter_def Let_def split: if_splits)

lemma toggle_selected_len_ok:
  "toggle_selected E m = Inr m' \<Longrightarrow> state m = ''results'' \<Longrightarrow> len_ok m \<Longrightarrow> len_ok m'"
  by (auto simp: toggle_selected_def len_ok_def in_filter_def Let_def split: if_splits)

lemma key_results_len_ok:
  assumes "key_results E m k = Inr (m', c)" and "len_ok m" and "state m = ''results''"
  shows "len_ok m'"
proof -
  have tk: "len_ok m2" if "table_keys E k m1 = (m2, c)" "len_ok m1" for m1 m2 c
    using that by (auto simp: table_keys_def len_ok_def in_filter_def)
  have oc: "len_ok (open_confirm m)"
    using assms(2,3) by (auto simp: open_confirm_def len_ok_def in_filter_def)
  have cf: "len_ok (clear_filter E m)"
    using assms(2,3) by (auto simp: clear_filter_def len_ok_def in_filter_def Let_def)
  have opf: "len_ok (open_filter st m)" for st
    using assms(2) by (auto simp: open_filter_def len_ok_def in_filter_def)
  have other: "len_ok (m\<lparr>filtered := b, state := ''banner'', scanning := False\<rparr>)" for b
    using assms(2) by (auto simp: len_ok_def in_filter_def)
  have view: "len_ok (m\<lparr>lastCursorPos := p, viewingSecret := n, state := ''view_secret''\<rparr>)"
    for p n using assms(2) by (auto simp: len_ok_def in_filter_def)
  have copied: "len_ok (m\<lparr>copiedMessage := t\<rparr>)" for t
    using assms(2,3) by (auto simp: len_ok_def in_filter_def)
  show ?thesis
    using assms oc cf opf other view copied
    by (auto simp: key_results_def Let_def split: if_splits sum.splits
        dest: tk toggle_selected_len_ok)
qed

lemma deleteComplete_len_ok:
  "deleteComplete E m e = Inr m' \<Longrightarrow> len_ok m \<Longrightarrow> len_ok m'"
  by (auto simp: deleteComplete_def len_ok_def in_filter_def Let_def
      split: option.splits sum.splits dest: remove_selected_lengths)

lemma valueRevealed_len_ok:
  "valueRevealed E m i v e = Inr m' \<Longrightarrow> len_ok m \<Longrightarrow> len_ok m'"
  by (auto simp: valueRevealed_def len_ok_def in_filter_def Let_def
      split: option.splits if_splits)

lemma analysisComplete_len_ok: "len_ok (analysisComplete E m rs None)"
  by (simp add: analysisComplete_def len_ok_def in_filter_def Let_def)

lemma Update_len_ok:
  assumes "Update E m x = Inr (m', c)" and "len_ok m" and "scan_succeeded x"
  shows "len_ok m'"
proof (cases x)
  case (KeyMsg k)
  show ?thesis
  proof (cases "Key_String k = ''q'' \<or> Key_String k = ''ctrl+c''")
    case True
    then show ?thesis using assms KeyMsg by (auto simp: Update_def)
  next
    case False
    then show ?thesis
      using assms(1,2) KeyMsg key_results_len_ok [of E m k m' c]
        key_filter_len_ok [of m E k m' c] key_view_secret_len_ok [of m E k m' c]
        key_confirm_delete_len_ok [of m "Key_String k" m' c]
      by (auto simp: Update_def Let_def in_filter_def split: if_splits)
  qed
next
  case startScanMsg
  then show ?thesis using assms
    by (auto simp: Update_def len_ok_def in_filter_def split: if_splits)
next
  case (analysisCompleteMsg rs e)
  then show ?thesis using assms
    by (auto simp: Update_def scan_succeeded_def analysisComplete_len_ok)
next
  case (versionsFetchedMsg vs e)
  then show ?thesis using assms
    by (auto simp: Update_def len_ok_def in_filter_def Let_def split: option.splits)
next
  case (valueRevealedMsg i v e)
  then show ?thesis using assms
    by (auto simp: Update_def split: sum.splits dest: valueRevealed_len_ok)
next
  case (deleteCompleteMsg e)
  then show ?thesis using assms
    by (auto simp: Update_def split: sum.splits dest: deleteComplete_len_ok)
next
  case clearCopiedMsg
  then show ?thesis using assms by (auto simp: Update_def len_ok_def in_filter_def)
next
  case spinner_TickMsg
  then show ?thesis using assms by (auto simp: Update_def)
next
  case progress_FrameMsg
  then show ?thesis using assms by (auto simp: Update_def)
next
  case otherMsg
  then show ?thesis using assms by (auto simp: Update_def)
qed

lemma run_len_ok:
  "run E m xs = Inr m' \<Longrightarrow> len_ok m \<Longrightarrow> list_all scan_succeeded xs \<Longrightarrow> len_ok m'"
proof (induction xs arbitrary: m)
  case Nil
  then show ?case by simp
next
  case (Cons x xs)
  then show ?case
    by (auto split: sum.splits if_splits dest: Update_len_ok)
qed

lemma initialModel_len_ok: "len_ok (initialModel e)"
  by (simp add: len_ok_def initialModel_def)

lemma Update_filter_commit:
  assumes "in_filter m" and "Key_String k = ''enter''"
  shows "\<exists>m'. Update E m (KeyMsg k) = Inr (m', cmd_nil) \<and> state m' = ''results''
    \<and> hasFilter m'
    \<and> results m' = preview E (state m) (input_value (filterInput m')) (originalResults m)
    \<and> selected m' = replicate (length (results m')) False"
  using assms by (auto simp: Update_def key_filter_def in_filter_def Let_def)

text \<open>
  Claim C6 fails on the source at the result of a failed scan. A scan lists three records,
  the first is selected, \<open>r\<close> starts a rescan, and the rescan fails: the list of results is
  replaced by the empty one, the mask keeps its three entries. Shift+D and \<open>y\<close> then issue
  a delete command over that mask and the empty list, which indexes out of range.
\<close>

theorem failed_rescan_breaks_mask_length:
  "final results (run (demo_env deny_beta) (initialModel None) failed_rescan) = Some []
   \<and> final selected (run (demo_env deny_beta) (initialModel None) failed_rescan)
       = Some [True, False, False]
   \<and> last (issued (demo_env deny_beta) (initialModel None)
        (failed_rescan @ [KeyMsg (rune_key ''D''), KeyMsg (rune_key ''y'')]))
       = cmd_performDelete [True, False, False] []
   \<and> performDelete (demo_env deny_beta) [True, False, False] [] = Inl IndexOutOfRange"
  by code_simp

subsection \<open>The confirmation dialog after a failed scan\<close>

text \<open>
  In a session without a failed scan the mask is as long as the list, so the state
  \<open>confirm_delete\<close> is open only while a listed record is selected.
\<close>

lemma chosen_nonempty:
  assumes "True \<in> set sels" and "length sels = length res"
  shows "chosen res sels \<noteq> []"
proof -
  from assms(1) obtain i where i: "i < length sels" "sels ! i"
    by (auto simp: in_set_conv_nth)
  have "(res ! i, True) \<in> set (zip res sels)"
    using i assms(2) by (auto simp: set_zip)
  then have "(res ! i, True) \<in> set (filter snd (zip res sels))"
    by simp
  then have "filter snd (zip res sels) \<noteq> []"
    by (metis empty_iff empty_set)
  then show ?thesis by (simp add: chosen_def)
qed

lemma confirm_delete_selects_record:
  assumes "run E (initialModel e) msgs = Inr m" and "list_all scan_succeeded msgs"
    and "state m = ''confirm_delete''"
  shows "selected_records m \<noteq> []"
proof -
  have "confirm_ok m"
    using run_confirm_ok [OF assms(1)] by (simp add: initialModel_confirm_ok)
  then have t: "True \<in> set (selected m)" using assms(3) by (simp add: confirm_ok_def)
  have "len_ok m"
    using run_len_ok [OF assms(1) _ assms(2)] by (simp add: initialModel_len_ok)
  then have "length (selected m) = length (results m)" by (simp add: len_ok_def)
  with t show ?thesis by (simp add: selected_records_def chosen_nonempty)
qed

text \<open>
  Claim C9 fails on the source after a failed scan, by the defect of claim C6. A scan lists
  three records, the first is selected, \<open>r\<close> starts a rescan, and the rescan fails: it
  returns zero records, and the mask keeps its true entry. Shift+D finds that entry and
  opens the state \<open>confirm_delete\<close>, although nothing is listed and no record is selected.
\<close>

theorem failed_rescan_opens_confirm_delete:
  "final state
     (run (demo_env deny_beta) (initialModel None)
        (failed_rescan @ [KeyMsg (rune_key ''D'')])) = Some ''confirm_delete''
   \<and> final results
     (run (demo_env deny_beta) (initialModel None)
        (failed_rescan @ [KeyMsg (rune_key ''D'')])) = Some []
   \<and> final selected
     (run (demo_env deny_beta) (initialModel None)
        (failed_rescan @ [KeyMsg (rune_key ''D'')])) = Some [True, False, False]
   \<and> final selected_records
     (run (demo_env deny_beta) (initialModel None)
        (failed_rescan @ [KeyMsg (rune_key ''D'')])) = Some []"
  by code_simp

end
